theory Spec2Isabelle
  imports Complex_Main "HOL-Library.AList"
begin

unbundle bit_operations_syntax

section \<open>Python primitives used by the three tools\<close>

text \<open>
  Python strings are sequences of code points. A \<^typ>\<open>char\<close> stands for a code point
  in the range 0..255, classified the way Python classifies U+0000..U+00FF; text with
  code points beyond that range is outside this model. Python floats are modelled as
  \<^typ>\<open>real\<close> (exact arithmetic, no rounding error, no infinities except where the
  source writes \<open>float('inf')\<close>), Python ints as \<^typ>\<open>int\<close> or \<^typ>\<open>nat\<close>.
\<close>

datatype py_error = IndexError | ValueError | KeyError | TypeError

definition cp :: "char \<Rightarrow> nat" where
  "cp c = of_char c"

definition between :: "nat \<Rightarrow> nat \<Rightarrow> char \<Rightarrow> bool" where
  "between lo hi c = (lo \<le> cp c \<and> cp c \<le> hi)"

text \<open>\<open>str.isspace\<close> on one character: U+0009..000D, U+001C..0020, U+0085, U+00A0.\<close>

definition isspace :: "char \<Rightarrow> bool" where
  "isspace c = (between 9 13 c \<or> between 28 32 c \<or> cp c = 133 \<or> cp c = 160)"

definition isdecimal :: "char \<Rightarrow> bool" where
  "isdecimal c = between 48 57 c"

text \<open>\<open>str.isdigit\<close>: the decimal digits and the superscripts U+00B2, U+00B3, U+00B9.\<close>

definition isdigit :: "char \<Rightarrow> bool" where
  "isdigit c = (between 48 57 c \<or> between 178 179 c \<or> cp c = 185)"

definition isupper :: "char \<Rightarrow> bool" where
  "isupper c = (between 65 90 c \<or> between 192 214 c \<or> between 216 222 c)"

definition islower :: "char \<Rightarrow> bool" where
  "islower c = (between 97 122 c \<or> cp c = 170 \<or> cp c = 181 \<or> cp c = 186
     \<or> between 223 246 c \<or> between 248 255 c)"

definition isalpha :: "char \<Rightarrow> bool" where
  "isalpha c = (between 65 90 c \<or> between 97 122 c \<or> cp c = 170 \<or> cp c = 181
     \<or> cp c = 186 \<or> between 192 214 c \<or> between 216 246 c \<or> between 248 255 c)"

text \<open>\<open>str.isalnum\<close>: alphabetic, decimal, digit or numeric (the fractions U+00BC..00BE).\<close>

definition isalnum :: "char \<Rightarrow> bool" where
  "isalnum c = (isalpha c \<or> isdecimal c \<or> isdigit c \<or> between 188 190 c)"

text \<open>
  \<open>str.isupper\<close> on a whole string: no lowercase character and at least one uppercase
  one (there is no titlecase character below U+0100).
\<close>

definition str_isupper :: "string \<Rightarrow> bool" where
  "str_isupper s = ((\<forall>c \<in> set s. \<not> islower c) \<and> (\<exists>c \<in> set s. isupper c))"

definition str_strip :: "string \<Rightarrow> string" where
  "str_strip s = rev (dropWhile isspace (rev (dropWhile isspace s)))"

text \<open>
  \<open>str.split()\<close> with no argument: the maximal runs of non-whitespace characters.
  \<open>cur\<close> is the run being read.
\<close>

fun split_run :: "string \<Rightarrow> string \<Rightarrow> string list" where
  "split_run cur [] = (if cur = [] then [] else [cur])"
| "split_run cur (c # cs) =
     (if isspace c then (if cur = [] then split_run [] cs else cur # split_run [] cs)
      else split_run (cur @ [c]) cs)"

definition str_split :: "string \<Rightarrow> string list" where
  "str_split s = split_run [] s"

text \<open>\<open>str(n)\<close> for an integer: its decimal digits, with a minus sign when negative.\<close>

fun str_nat :: "nat \<Rightarrow> string" where
  "str_nat n =
     (if n < 10 then [''0123456789'' ! n]
      else str_nat (n div 10) @ [''0123456789'' ! (n mod 10)])"

definition str_int :: "int \<Rightarrow> string" where
  "str_int i = (if i < 0 then CHR ''-'' # str_nat (nat (- i)) else str_nat (nat i))"

text \<open>
  \<open>int(s)\<close> on a one-character string: the value of a decimal digit, ValueError on
  anything else (whitespace and the superscript digits included).
\<close>

definition int_of_char :: "char \<Rightarrow> py_error + int" where
  "int_of_char c = (if isdecimal c then Inr (int (cp c) - 48) else Inl ValueError)"

text \<open>\<open>d.get(key, default)\<close> on a key that may be absent (\<open>None\<close> is the absent key).\<close>

definition dict_get :: "'a option \<Rightarrow> 'a \<Rightarrow> 'a" where
  "dict_get v d = (case v of None \<Rightarrow> d | Some x \<Rightarrow> x)"

text \<open>
  \<open>round(x)\<close> to an integer and \<open>round(x, ndigits)\<close>: to the nearest, a tie going to
  the even neighbour.
\<close>

definition py_round_int :: "real \<Rightarrow> int" where
  "py_round_int x =
     (let f = \<lfloor>x\<rfloor>; d = x - of_int f in
      if d < 1/2 then f else if 1/2 < d then f + 1 else if even f then f else f + 1)"

definition py_round :: "real \<Rightarrow> nat \<Rightarrow> real" where
  "py_round x ndigits = of_int (py_round_int (x * 10 ^ ndigits)) / 10 ^ ndigits"

text \<open>
  \<open>re.search(pat, s, re.IGNORECASE)\<close> for a literal pattern of ASCII letters:
  \<open>pat\<close> (given in lower case) occurs in \<open>s\<close> once the ASCII capitals of \<open>s\<close> are
  lowered.
\<close>

definition ascii_lower :: "char \<Rightarrow> char" where
  "ascii_lower c = (if between 65 90 c then char_of (cp c + 32) else c)"

fun has_infix :: "string \<Rightarrow> string \<Rightarrow> bool" where
  "has_infix pat [] = (pat = [])"
| "has_infix pat (c # cs) = (take (length pat) (c # cs) = pat \<or> has_infix pat cs)"

definition re_search_ci :: "string \<Rightarrow> string \<Rightarrow> bool" where
  "re_search_ci pat s = has_infix pat (map ascii_lower s)"

section \<open>What the PDF engine hands to the tools\<close>

text \<open>
  The document is what \<open>fitz\<close> returns: pages, each with its size, its blocks (type,
  bounding box, lines of spans) and its drawing paths. A span field read through
  \<open>span.get\<close> is an option (\<open>None\<close>: the key is absent); a field read by subscript is
  always there. A path's rectangle carries the attributes the source reads (\<open>x0\<close>,
  \<open>y0\<close>, \<open>x1\<close>, \<open>width\<close>, \<open>height\<close>) as the engine reports them.
\<close>

record span =
  sp_text :: "string option"
  sp_font :: "string option"
  sp_size :: "real option"
  sp_flags :: "int option"
  sp_color :: "int option"

record bbox =
  bx0 :: real
  by0 :: real
  bx1 :: real
  by1 :: real

record line =
  ln_spans :: "span list option"
  ln_bbox :: bbox

record block =
  blk_type :: int
  blk_lines :: "line list option"
  blk_bbox :: bbox

record path_rect =
  pr_x0 :: real
  pr_y0 :: real
  pr_x1 :: real
  pr_width :: real
  pr_height :: real

record page =
  pg_width :: real
  pg_height :: real
  pg_blocks :: "block list"
  pg_drawings :: "path_rect list"

type_synonym document = "page list"

section \<open>Outline tool: \<open>extract_outline_batch.py\<close>\<close>

subsection \<open>\<open>is_heading_nlp\<close>\<close>

definition is_heading_nlp :: "string \<Rightarrow> bool" where
  "is_heading_nlp text =
     (let txt = str_strip text in
      if txt = [] \<or> last txt \<in> set ''.?!'' then False
      else
        let words = str_split txt in
        if length words > 10 then False
        else
          let alnum_count = length (filter isalnum txt) in
          if alnum_count < 3 then False
          else
            let cap = length (filter (\<lambda>w. w \<noteq> [] \<and> isupper (hd w)) words) in
            real cap / real (length words) \<ge> 0.5)"

subsection \<open>\<open>adjust_hierarchy\<close>\<close>

text \<open>An outline node is the dict \<open>{"level": ..., "text": ..., "page": ...}\<close>.\<close>

record node =
  nd_level :: "string option"
  nd_text :: string
  nd_page :: nat

text \<open>
  \<open>int(node.get('level', 'H1')[1])\<close>: the character at index 1 of the label, read as
  a decimal digit. A label shorter than two characters raises IndexError.
\<close>

definition parse_level :: "node \<Rightarrow> py_error + int" where
  "parse_level nd =
     (let s = dict_get (nd_level nd) ''H1'' in
      if length s < 2 then Inl IndexError else int_of_char (s ! 1))"

fun adjust_loop :: "int \<Rightarrow> node list \<Rightarrow> py_error + node list" where
  "adjust_loop last_level [] = Inr []"
| "adjust_loop last_level (nd # rest) =
     (case parse_level nd of
        Inl e \<Rightarrow> Inl e
      | Inr orig \<Rightarrow>
          (let new = (if last_level = 0 \<and> orig > 1 then 1
                      else if orig > last_level + 1 then last_level + 1
                      else orig)
           in case adjust_loop new rest of
                Inl e \<Rightarrow> Inl e
              | Inr out \<Rightarrow> Inr (nd\<lparr>nd_level := Some (''H'' @ str_int new)\<rparr> # out)))"

definition adjust_hierarchy :: "node list \<Rightarrow> py_error + node list" where
  "adjust_hierarchy outline = adjust_loop 0 outline"

text \<open>
  The hierarchy rule in the words of the specification, on the parsed levels alone:
  starting from \<open>last_level = 0\<close>, a level \<open>L\<close> becomes 1 when \<open>last_level = 0\<close> and
  \<open>L > 1\<close>, becomes \<open>last_level + 1\<close> when \<open>L > last_level + 1\<close>, and is kept
  otherwise; the result is the next \<open>last_level\<close>.
\<close>

fun spec_levels :: "int \<Rightarrow> int list \<Rightarrow> int list" where
  "spec_levels last_level [] = []"
| "spec_levels last_level (L # Ls) =
     (if last_level = 0 \<and> L > 1 then 1 # spec_levels 1 Ls
      else if L > last_level + 1 then (last_level + 1) # spec_levels (last_level + 1) Ls
      else L # spec_levels L Ls)"

subsection \<open>\<open>extract_pdf_structure\<close>\<close>

text \<open>A collected block: the dict appended to \<open>blocks\<close> in the first loop.\<close>

record oblock =
  ob_page :: nat
  ob_text :: string
  ob_font_size :: real
  ob_bold_ratio :: real
  ob_italic_ratio :: real

text \<open>The per-block counters of the span loop, and the document-wide \<open>font_sizes\<close>.\<close>

record span_acc =
  block_text :: string
  max_font_size :: real
  bold_spans :: nat
  italic_spans :: nat
  total_spans :: nat
  font_sizes :: "real list"

definition span_step :: "span \<Rightarrow> span_acc \<Rightarrow> span_acc" where
  "span_step sp a =
     (let text = str_strip (dict_get (sp_text sp) '''') in
      if text = [] then a
      else
        let font_name = dict_get (sp_font sp) '''';
            size = dict_get (sp_size sp) 0
        in a\<lparr>total_spans := total_spans a + 1,
              bold_spans :=
                (if re_search_ci ''bold'' font_name then bold_spans a + 1 else bold_spans a),
              italic_spans :=
                (if re_search_ci ''italic'' font_name \<or> re_search_ci ''oblique'' font_name
                 then italic_spans a + 1 else italic_spans a),
              font_sizes := font_sizes a @ [size],
              max_font_size := max (max_font_size a) size,
              block_text := block_text a @ text @ '' ''\<rparr>)"

definition line_step :: "line \<Rightarrow> span_acc \<Rightarrow> span_acc" where
  "line_step lin a = fold span_step (dict_get (ln_spans lin) []) a"

text \<open>
  One block of a page: non-text blocks are skipped; a text block whose text is not
  blank is appended to \<open>blocks\<close>. The state is \<open>(blocks, font_sizes)\<close>.
\<close>

definition block_step :: "nat \<Rightarrow> block \<Rightarrow> oblock list \<times> real list \<Rightarrow> oblock list \<times> real list" where
  "block_step page_num blk st =
     (if blk_type blk \<noteq> 0 then st
      else
        let a = fold line_step (dict_get (blk_lines blk) [])
                  \<lparr>block_text = '''', max_font_size = 0, bold_spans = 0, italic_spans = 0,
                   total_spans = 0, font_sizes = snd st\<rparr>
        in if str_strip (block_text a) \<noteq> []
           then (fst st @
                 [\<lparr>ob_page = page_num, ob_text = str_strip (block_text a),
                   ob_font_size = max_font_size a,
                   ob_bold_ratio =
                     (if total_spans a \<noteq> 0 then real (bold_spans a) / real (total_spans a) else 0),
                   ob_italic_ratio =
                     (if total_spans a \<noteq> 0 then real (italic_spans a) / real (total_spans a) else 0)\<rparr>],
                 font_sizes a)
           else (fst st, font_sizes a))"

fun collect_pages :: "nat \<Rightarrow> page list \<Rightarrow> oblock list \<times> real list \<Rightarrow> oblock list \<times> real list" where
  "collect_pages page_num [] st = st"
| "collect_pages page_num (p # ps) st =
     collect_pages (page_num + 1) ps (fold (block_step page_num) (pg_blocks p) st)"

definition collect_blocks :: "document \<Rightarrow> oblock list \<times> real list" where
  "collect_blocks doc = collect_pages 0 doc ([], [])"

definition heading_thresh :: "real list \<Rightarrow> real" where
  "heading_thresh sizes =
     (let avg_font = (if sizes \<noteq> [] then sum_list sizes / real (length sizes) else 0)
      in avg_font + 1.5)"

text \<open>The title test of the second loop (the part after \<open>title is None\<close>).\<close>

definition title_shape :: "oblock \<Rightarrow> bool" where
  "title_shape b =
     (ob_page b = 0 \<and> length (str_split (ob_text b)) > 4 \<and> last (ob_text b) \<notin> set ''.?!'')"

text \<open>
  The body of the second loop below the title test: the nodes this block adds to
  \<open>outline\<close> (none or one).
\<close>

definition heading_nodes :: "real \<Rightarrow> oblock \<Rightarrow> node list" where
  "heading_nodes thresh b =
     (let txt = ob_text b; size = ob_font_size b; words = str_split txt;
          alnum_count = length (filter isalnum txt)
      in if alnum_count < 3 \<or> length txt < 4 then []
         else
           let is_big = (size \<ge> thresh);
               is_bold = (ob_bold_ratio b > 0.5);
               is_italic = (ob_italic_ratio b > 0.5);
               is_nlp = is_heading_nlp txt
           in if (is_big \<or> is_bold \<or> is_italic \<or> is_nlp) \<and> length words \<le> 10
              then [\<lparr>nd_level =
                       Some (if (is_big \<and> size \<ge> thresh * 1.2) \<or> is_bold then ''H1'' else ''H2''),
                     nd_text = txt, nd_page = ob_page b\<rparr>]
              else [])"


text \<open>The second loop; the state is \<open>(title, outline)\<close>.\<close>

fun scan_blocks :: "real \<Rightarrow> oblock list \<Rightarrow> string option \<times> node list \<Rightarrow> string option \<times> node list" where
  "scan_blocks thresh [] st = st"
| "scan_blocks thresh (b # bs) (title, outline) =
     (if title = None \<and> title_shape b then scan_blocks thresh bs (Some (ob_text b), outline)
      else scan_blocks thresh bs (title, outline @ heading_nodes thresh b))"

record outline_doc =
  od_title :: string
  od_outline :: "node list"

text \<open>
  \<open>extract_pdf_structure\<close> on an opened document. The progress lines it prints are
  not part of its result and are left out. \<open>title or ""\<close> is the empty string for
  \<open>None\<close> and for an empty title.
\<close>

definition extract_pdf_structure :: "document \<Rightarrow> py_error + outline_doc" where
  "extract_pdf_structure doc =
     (let (blocks, sizes) = collect_blocks doc;
          (title, outline) = scan_blocks (heading_thresh sizes) blocks (None, [])
      in case adjust_hierarchy outline of
           Inl e \<Rightarrow> Inl e
         | Inr out \<Rightarrow> Inr \<lparr>od_title = dict_get title '''', od_outline = out\<rparr>)"

subsection \<open>Example documents\<close>

text \<open>Small documents on which the tools are run below.\<close>

definition mk_span :: "string \<Rightarrow> string \<Rightarrow> real \<Rightarrow> span" where
  "mk_span t f s = \<lparr>sp_text = Some t, sp_font = Some f, sp_size = Some s, sp_flags = Some 0, sp_color = Some 0\<rparr>"

definition mk_block :: "string \<Rightarrow> string \<Rightarrow> real \<Rightarrow> real \<Rightarrow> block" where
  "mk_block t f s y = \<lparr>blk_type = 0,
     blk_lines = Some [\<lparr>ln_spans = Some [mk_span t f s], ln_bbox = \<lparr>bx0 = 72, by0 = y, bx1 = 300, by1 = y + s\<rparr>\<rparr>],
     blk_bbox = \<lparr>bx0 = 72, by0 = y, bx1 = 300, by1 = y + s\<rparr>\<rparr>"

definition example_doc :: document where
  "example_doc =
     [\<lparr>pg_width = 612, pg_height = 792,
       pg_blocks =
         [mk_block ''Annual Report of the Example Company'' ''Helvetica-Bold'' 20 72,
          mk_block ''Overview'' ''Helvetica-Bold'' 16 120,
          mk_block ''This is a normal sentence about things.'' ''Helvetica'' 10 150,
          mk_block ''Scope and Goals'' ''Helvetica'' 10 170],
       pg_drawings = []\<rparr>]"


section \<open>Values written to the CSV files\<close>

text \<open>
  A Python float is a real number or one of \<open>inf\<close>, \<open>-inf\<close>, \<open>nan\<close>; the infinities
  appear only as the starting values of the running minimum and maximum in
  \<open>main.py\<close>. A dict of the source is an association list in insertion order; a
  cell of a CSV row is the Python value handed to the writer.
\<close>

datatype pyfloat = Finite real | PosInf | NegInf | NaN

datatype pyval = VStr string | VInt int | VFloat pyfloat | VBool bool

type_synonym row = "(string \<times> pyval) list"

text \<open>The number a value stands for in arithmetic and comparisons; a string raises TypeError.\<close>

fun num :: "pyval \<Rightarrow> py_error + pyfloat" where
  "num (VStr s) = Inl TypeError"
| "num (VInt i) = Inr (Finite (of_int i))"
| "num (VFloat f) = Inr f"
| "num (VBool b) = Inr (Finite (if b then 1 else 0))"

fun flt :: "pyfloat \<Rightarrow> pyfloat \<Rightarrow> bool" where
  "flt (Finite a) (Finite b) = (a < b)"
| "flt NaN y = False"
| "flt x NaN = False"
| "flt x NegInf = False"
| "flt PosInf y = False"
| "flt NegInf y = True"
| "flt x PosInf = True"

text \<open>\<open>min(a, b)\<close> and \<open>max(a, b)\<close>: the first argument unless the second is strictly better.\<close>

definition py_min :: "pyfloat \<Rightarrow> pyfloat \<Rightarrow> pyfloat" where
  "py_min a b = (if flt b a then b else a)"

definition py_max :: "pyfloat \<Rightarrow> pyfloat \<Rightarrow> pyfloat" where
  "py_max a b = (if flt a b then b else a)"

fun fsub :: "pyfloat \<Rightarrow> pyfloat \<Rightarrow> pyfloat" where
  "fsub (Finite a) (Finite b) = Finite (a - b)"
| "fsub NaN y = NaN"
| "fsub x NaN = NaN"
| "fsub PosInf PosInf = NaN"
| "fsub NegInf NegInf = NaN"
| "fsub PosInf y = PosInf"
| "fsub NegInf y = NegInf"
| "fsub x PosInf = NegInf"
| "fsub x NegInf = PosInf"

text \<open>Division by a divisor that is not zero (the source tests for zero first).\<close>

fun fdiv :: "pyfloat \<Rightarrow> pyfloat \<Rightarrow> pyfloat" where
  "fdiv (Finite a) (Finite b) = Finite (a / b)"
| "fdiv NaN y = NaN"
| "fdiv x NaN = NaN"
| "fdiv (Finite a) y = Finite 0"
| "fdiv PosInf (Finite b) = (if 0 < b then PosInf else NegInf)"
| "fdiv NegInf (Finite b) = (if 0 < b then NegInf else PosInf)"
| "fdiv x y = NaN"

fun fround :: "pyfloat \<Rightarrow> nat \<Rightarrow> pyfloat" where
  "fround (Finite a) n = Finite (py_round a n)"
| "fround x n = x"

text \<open>What a run of an extractor leaves behind: the lines printed, the CSV file
  (header and rows) if one was created, and the exception that escaped, if any.\<close>

record run =
  run_printed :: "string list"
  run_csv :: "(string list \<times> pyval list list) option"
  run_raised :: "py_error option"

text \<open>\<open>os.path.basename\<close> and \<open>os.path.dirname\<close> on POSIX paths.\<close>

definition basename :: "string \<Rightarrow> string" where
  "basename p = rev (takeWhile (\<lambda>c. c \<noteq> CHR ''/'') (rev p))"

definition dirname :: "string \<Rightarrow> string" where
  "dirname p =
     (let head = take (length p - length (basename p)) p in
      if head \<noteq> [] \<and> (\<exists>c \<in> set head. c \<noteq> CHR ''/'')
      then rev (dropWhile (\<lambda>c. c = CHR ''/'') (rev head)) else head)"

text \<open>
  The world outside the process: which paths exist, what opening a PDF gives (the
  document, or the failure: a FileNotFoundError or another exception, each with the
  exception's message), and whether opening a path for writing fails.
\<close>

datatype open_failure = FileNotFound string | OtherFailure string

fun failure_message :: "open_failure \<Rightarrow> string" where
  "failure_message (FileNotFound m) = m"
| "failure_message (OtherFailure m) = m"

record env =
  fs_exists :: "string \<Rightarrow> bool"
  fs_open_pdf :: "string \<Rightarrow> open_failure + document"
  fs_write_error :: "string \<Rightarrow> open_failure option"

section \<open>Per-Block extractor: \<open>main.py\<close>\<close>

subsection \<open>\<open>analyze_block_text_features\<close>\<close>

text \<open>
  \<open>Counter(xs).most_common(1)\<close>: the keys in order of first occurrence, and among
  them the first with the largest count.
\<close>

fun first_seen :: "'a list \<Rightarrow> 'a list" where
  "first_seen [] = []"
| "first_seen (x # xs) = x # first_seen (filter (\<lambda>y. y \<noteq> x) xs)"

fun max_first :: "('a \<Rightarrow> nat) \<Rightarrow> 'a \<Rightarrow> 'a list \<Rightarrow> 'a" where
  "max_first key best [] = best"
| "max_first key best (x # xs) = max_first key (if key best < key x then x else best) xs"

definition most_common1 :: "'a list \<Rightarrow> 'a option" where
  "most_common1 xs =
     (case first_seen xs of [] \<Rightarrow> None | k # ks \<Rightarrow> Some (max_first (count_list xs) k ks))"

definition block_spans :: "block \<Rightarrow> span list" where
  "block_spans blk = concat (map (\<lambda>l. dict_get (ln_spans l) []) (dict_get (blk_lines blk) []))"

definition analyze_block_text_features :: "block \<Rightarrow> string \<times> int \<times> bool \<times> bool \<times> string" where
  "analyze_block_text_features blk =
     (let spans_info = block_spans blk;
          full_text = str_strip (concat (map (\<lambda>s. dict_get (sp_text s) '''' @ '' '') spans_info))
      in if spans_info = [] then (''N/A'', 0, False, False, full_text)
         else
           let dominant_font =
                 dict_get (most_common1 (map (\<lambda>s. dict_get (sp_font s) '''') spans_info)) ''N/A'';
               dominant_size =
                 dict_get (most_common1 (map (\<lambda>s. py_round_int (dict_get (sp_size s) 0)) spans_info)) 0;
               flags = map (\<lambda>s. dict_get (sp_flags s) 0) spans_info;
               is_bold = (\<exists>f \<in> set flags. f AND push_bit 4 1 \<noteq> 0);
               is_italic = (\<exists>f \<in> set flags. f AND push_bit 1 1 \<noteq> 0)
           in (dominant_font, dominant_size, is_bold, is_italic, full_text))"

subsection \<open>\<open>process_pdf\<close>: one block\<close>

text \<open>The underline search over the page's drawing paths, \<open>break\<close> at the first match.\<close>

fun underline_loop :: "real \<Rightarrow> real \<Rightarrow> real \<Rightarrow> int \<Rightarrow> path_rect list \<Rightarrow> bool" where
  "underline_loop x0 x1 y1 font_size [] = False"
| "underline_loop x0 x1 y1 font_size (path # rest) =
     (let is_horizontal_line = (pr_height path < 1.0 \<and> pr_width path > 0) in
      if is_horizontal_line then
        (let line_y = pr_y0 path in
         if line_y > y1 - of_int font_size * 0.2 \<and> line_y < y1 + of_int font_size * 0.2 then
           (if max x0 (pr_x0 path) < min x1 (pr_x1 path) then True
            else underline_loop x0 x1 y1 font_size rest)
         else underline_loop x0 x1 y1 font_size rest)
      else underline_loop x0 x1 y1 font_size rest)"

text \<open>
  The body of the loop over \<open>enumerate(blocks)\<close> for index \<open>i\<close>: \<open>None\<close> when the block
  is skipped, otherwise the dict \<open>block_data\<close> in insertion order.
\<close>

definition block_data :: "nat \<Rightarrow> page \<Rightarrow> block list \<Rightarrow> nat \<Rightarrow> row option" where
  "block_data page_num pg blocks i =
     (let blk = blocks ! i in
      if blk_type blk \<noteq> 0 \<or> dict_get (blk_lines blk) [] = [] then None
      else
        (case analyze_block_text_features blk of
           (font, font_size, is_bold, is_italic, text) \<Rightarrow>
             if str_strip text = [] then None
             else
               let cleaned_text_for_caps = filter isalpha text;
                   is_all_caps = (cleaned_text_for_caps \<noteq> [] \<and> str_isupper cleaned_text_for_caps);
                   contains_number = (\<exists>c \<in> set text. isdigit c);
                   contains_fullstop = (CHR ''.'' \<in> set text);
                   word_count = length (str_split text);
                   x0 = bx0 (blk_bbox blk); y0 = by0 (blk_bbox blk);
                   x1 = bx1 (blk_bbox blk); y1 = by1 (blk_bbox blk);
                   prev_block_y1 = (if i > 0 then by1 (blk_bbox (blocks ! (i - 1))) else 0);
                   space_above = y0 - prev_block_y1;
                   next_block_y0 =
                     (if i < length blocks - 1 then by0 (blk_bbox (blocks ! (i + 1)))
                      else pg_height pg);
                   space_below = next_block_y0 - y1;
                   space_left = x0;
                   space_right = pg_width pg - x1;
                   page_midpoint_x = pg_width pg / 2;
                   block_midpoint_x = (x0 + x1) / 2;
                   margin_of_error = 5.0;
                   is_centered = (\<bar>block_midpoint_x - page_midpoint_x\<bar> < margin_of_error);
                   is_underline = underline_loop x0 x1 y1 font_size (pg_drawings pg)
               in Some
                 [(''text'', VStr text),
                  (''font'', VStr font),
                  (''font_size'', VInt font_size),
                  (''is_bold'', VBool is_bold),
                  (''is_italic'', VBool is_italic),
                  (''is_underline'', VBool is_underline),
                  (''is_all_caps'', VBool is_all_caps),
                  (''is_centered'', VBool is_centered),
                  (''contains_number'', VBool contains_number),
                  (''contains_fullstop'', VBool contains_fullstop),
                  (''word_count'', VInt (int word_count)),
                  (''x0'', VFloat (Finite (py_round x0 2))),
                  (''y0'', VFloat (Finite (py_round y0 2))),
                  (''x1'', VFloat (Finite (py_round x1 2))),
                  (''y1'', VFloat (Finite (py_round y1 2))),
                  (''space_above'', VFloat (Finite (py_round space_above 2))),
                  (''space_below'', VFloat (Finite (py_round space_below 2))),
                  (''space_left'', VFloat (Finite (py_round space_left 2))),
                  (''space_right'', VFloat (Finite (py_round space_right 2))),
                  (''page_number'', VInt (int page_num + 1))]))"

text \<open>One page: its blocks sorted by \<open>y0\<close> (a stable sort), each index in turn.\<close>

definition page_rows :: "nat \<Rightarrow> page \<Rightarrow> row list" where
  "page_rows page_num pg =
     (let blocks = sort_key (\<lambda>b. by0 (blk_bbox b)) (pg_blocks pg)
      in List.map_filter (block_data page_num pg blocks) [0..<length blocks])"

definition all_blocks_data :: "document \<Rightarrow> row list" where
  "all_blocks_data doc = concat (map (\<lambda>(page_num, pg). page_rows page_num pg) (List.enumerate 0 doc))"

subsection \<open>\<open>process_pdf\<close>: normalisation and output\<close>

definition features_to_normalize :: "string list" where
  "features_to_normalize =
     [''font_size'', ''space_above'', ''space_below'', ''space_left'', ''space_right'']"

text \<open>\<open>min_max_values\<close>: for each feature its running \<open>(min, max)\<close>.\<close>

type_synonym min_max = "(string \<times> pyfloat \<times> pyfloat) list"

definition min_max_init :: min_max where
  "min_max_init = map (\<lambda>key. (key, (PosInf, NegInf))) features_to_normalize"

text \<open>The first pass, inner loop over the keys for one block.\<close>

fun min_max_keys :: "row \<Rightarrow> string list \<Rightarrow> min_max \<Rightarrow> py_error + min_max" where
  "min_max_keys blk [] mm = Inr mm"
| "min_max_keys blk (key # keys) mm =
     (case map_of mm key of
        None \<Rightarrow> Inl KeyError
      | Some (mn, mx) \<Rightarrow>
          (case map_of blk key of
             None \<Rightarrow> Inl KeyError
           | Some v \<Rightarrow>
               (case num v of
                  Inl e \<Rightarrow> Inl e
                | Inr x \<Rightarrow> min_max_keys blk keys (AList.update key (py_min mn x, py_max mx x) mm))))"

fun min_max_blocks :: "row list \<Rightarrow> min_max \<Rightarrow> py_error + min_max" where
  "min_max_blocks [] mm = Inr mm"
| "min_max_blocks (blk # blks) mm =
     (case min_max_keys blk features_to_normalize mm of
        Inl e \<Rightarrow> Inl e
      | Inr mm' \<Rightarrow> min_max_blocks blks mm')"

text \<open>The second pass, inner loop: \<open>block['norm_' + key] = round(norm_val, 4)\<close>.\<close>

fun norm_keys :: "min_max \<Rightarrow> string list \<Rightarrow> row \<Rightarrow> py_error + row" where
  "norm_keys mm [] blk = Inr blk"
| "norm_keys mm (key # keys) blk =
     (case map_of mm key of
        None \<Rightarrow> Inl KeyError
      | Some (min_val, max_val) \<Rightarrow>
          (let range_val = fsub max_val min_val in
           if range_val = Finite 0
           then norm_keys mm keys (AList.update (''norm_'' @ key) (VFloat (fround (Finite 0) 4)) blk)
           else
             (case map_of blk key of
                None \<Rightarrow> Inl KeyError
              | Some v \<Rightarrow>
                  (case num v of
                     Inl e \<Rightarrow> Inl e
                   | Inr x \<Rightarrow>
                       (let norm_val = fdiv (fsub x min_val) range_val
                        in norm_keys mm keys
                             (AList.update (''norm_'' @ key) (VFloat (fround norm_val 4)) blk))))))"

fun norm_blocks :: "min_max \<Rightarrow> row list \<Rightarrow> py_error + row list" where
  "norm_blocks mm [] = Inr []"
| "norm_blocks mm (blk # blks) =
     (case norm_keys mm features_to_normalize blk of
        Inl e \<Rightarrow> Inl e
      | Inr blk' \<Rightarrow>
          (case norm_blocks mm blks of
             Inl e \<Rightarrow> Inl e
           | Inr blks' \<Rightarrow> Inr (blk' # blks')))"

text \<open>
  \<open>csv.DictWriter\<close>: a row with a key outside \<open>fieldnames\<close> raises ValueError; a
  missing key is written as the empty string. \<open>writerows\<close> writes the rows before the
  first one that raises.
\<close>

definition dict_to_list :: "string list \<Rightarrow> row \<Rightarrow> py_error + pyval list" where
  "dict_to_list fieldnames rowdict =
     (if \<exists>k \<in> set (map fst rowdict). k \<notin> set fieldnames then Inl ValueError
      else Inr (map (\<lambda>k. dict_get (map_of rowdict k) (VStr '''')) fieldnames))"

fun writerows :: "string list \<Rightarrow> row list \<Rightarrow> pyval list list \<times> py_error option" where
  "writerows fieldnames [] = ([], None)"
| "writerows fieldnames (r # rs) =
     (case dict_to_list fieldnames r of
        Inl e \<Rightarrow> ([], Some e)
      | Inr cells \<Rightarrow> (case writerows fieldnames rs of (written, err) \<Rightarrow> (cells # written, err)))"

text \<open>A path or name between single quotes, as the messages print it.\<close>

definition quoted :: "string \<Rightarrow> string" where
  "quoted s = CHR 0x27 # s @ [CHR 0x27]"

text \<open>
  \<open>process_pdf\<close>. \<open>opened\<close> is what \<open>fitz.open\<close> gave and \<open>write_error\<close> the IOError of
  opening the CSV path for writing, if any (writing to an opened file succeeds). An
  exception that the function does not catch ends it and is recorded in
  \<open>run_raised\<close>.
\<close>

definition process_pdf :: "open_failure + document \<Rightarrow> open_failure option \<Rightarrow> string \<Rightarrow> string \<Rightarrow> run" where
  "process_pdf opened write_error input_pdf_path output_csv_path =
     (case opened of
        Inl e \<Rightarrow>
          \<lparr>run_printed =
             [''Error: Could not open or process PDF file '' @ quoted input_pdf_path @ ''.'',
              ''Reason: '' @ failure_message e],
           run_csv = None, run_raised = None\<rparr>
      | Inr doc \<Rightarrow>
          (let p1 = [''Processing '' @ str_nat (length doc) @ '' pages in ''
                       @ quoted (basename input_pdf_path) @ ''...''];
               blocks = all_blocks_data doc
           in if blocks = []
              then \<lparr>run_printed = p1 @ [''Warning: No text blocks were extracted from the PDF.''],
                    run_csv = None, run_raised = None\<rparr>
              else
                (case min_max_blocks blocks min_max_init of
                   Inl e \<Rightarrow> \<lparr>run_printed = p1, run_csv = None, run_raised = Some e\<rparr>
                 | Inr mm \<Rightarrow>
                     (case norm_blocks mm blocks of
                        Inl e \<Rightarrow> \<lparr>run_printed = p1, run_csv = None, run_raised = Some e\<rparr>
                      | Inr rows \<Rightarrow>
                          (let p2 = p1 @ [''Writing '' @ str_nat (length rows) @ '' text blocks to ''
                                            @ quoted output_csv_path @ ''...'']
                           in case write_error of
                                Some reason \<Rightarrow>
                                  \<lparr>run_printed = p2 @
                                     [''Error: Could not write to CSV file '' @ quoted output_csv_path @ ''.'',
                                      ''Reason: '' @ failure_message reason],
                                   run_csv = None, run_raised = None\<rparr>
                              | None \<Rightarrow>
                                  (case rows of
                                     [] \<Rightarrow>
                                       \<lparr>run_printed = p2 @ [''Successfully created the CSV file.''],
                                        run_csv = Some ([], []), run_raised = None\<rparr>
                                   | first # _ \<Rightarrow>
                                       (let fieldnames = map fst first in
                                        case writerows fieldnames rows of
                                          (written, Some e) \<Rightarrow>
                                            \<lparr>run_printed = p2, run_csv = Some (fieldnames, written),
                                             run_raised = Some e\<rparr>
                                        | (written, None) \<Rightarrow>
                                            \<lparr>run_printed = p2 @ [''Successfully created the CSV file.''],
                                             run_csv = Some (fieldnames, written),
                                             run_raised = None\<rparr>)))))))"

subsection \<open>\<open>main\<close>\<close>

text \<open>
  The command line of \<open>main.py\<close>: everything printed, the exit code of \<open>sys.exit\<close> if
  it was called, the directories created, and the run of \<open>process_pdf\<close> if it was
  reached.
\<close>

record cli =
  cli_printed :: "string list"
  cli_exit :: "int option"
  cli_makedirs :: "string list"
  cli_run :: "run option"

definition main :: "env \<Rightarrow> string list \<Rightarrow> cli" where
  "main ev argv =
     (if length argv \<noteq> 3
      then \<lparr>cli_printed =
              [''Usage: python extract_pdf_features.py <input_pdf_path> <output_csv_path>''],
            cli_exit = Some 1, cli_makedirs = [], cli_run = None\<rparr>
      else
        (let input_pdf = argv ! 1; output_csv = argv ! 2 in
         if \<not> fs_exists ev input_pdf
         then \<lparr>cli_printed = [''Error: Input file not found at '' @ quoted input_pdf],
               cli_exit = Some 1, cli_makedirs = [], cli_run = None\<rparr>
         else
           (let output_dir = dirname output_csv;
                r = process_pdf (fs_open_pdf ev input_pdf) (fs_write_error ev output_csv)
                      input_pdf output_csv
            in if output_dir \<noteq> [] \<and> \<not> fs_exists ev output_dir
               then \<lparr>cli_printed =
                       (''Created output directory: '' @ quoted output_dir) # run_printed r,
                     cli_exit = None, cli_makedirs = [output_dir], cli_run = Some r\<rparr>
               else \<lparr>cli_printed = run_printed r, cli_exit = None, cli_makedirs = [],
                     cli_run = Some r\<rparr>)))"

section \<open>Merged-Block extractor: \<open>feature-extractor.py\<close>\<close>

subsection \<open>Helpers\<close>

definition convert_color_int_to_rgb :: "int option \<Rightarrow> (int \<times> int \<times> int) option" where
  "convert_color_int_to_rgb color_int =
     (case color_int of
        None \<Rightarrow> None
      | Some c \<Rightarrow>
          (let blue = c AND 255;
               green = drop_bit 8 c AND 255;
               red = drop_bit 16 c AND 255
           in Some (red, green, blue)))"

text \<open>
  The style signature \<open>(font, size, color, bold, italic, underline, all_caps)\<close>. A span
  of the engine is never an empty dict, so the \<open>None\<close> result of the source for a
  falsy span does not arise.
\<close>

type_synonym style_sig = "string \<times> real \<times> int option \<times> bool \<times> bool \<times> bool \<times> bool"

definition get_style_signature :: "span \<Rightarrow> style_sig" where
  "get_style_signature sp =
     (let flags = dict_get (sp_flags sp) 0;
          is_underline = (flags AND 1 \<noteq> 0);
          is_italic = (flags AND 2 \<noteq> 0);
          is_bold = (flags AND 16 \<noteq> 0);
          text = str_strip (dict_get (sp_text sp) '''');
          is_all_caps = (str_isupper text \<and> (\<exists>c \<in> set text. isalpha c))
      in (dict_get (sp_font sp) ''Unknown'', py_round (dict_get (sp_size sp) 0) 2, sp_color sp,
          is_bold, is_italic, is_underline, is_all_caps))"

definition normalize_value :: "real \<Rightarrow> real \<Rightarrow> real \<Rightarrow> real" where
  "normalize_value v min_val max_val =
     (if max_val = min_val then 0 else (v - min_val) / (max_val - min_val))"

subsection \<open>Pass 1: merging the lines of a page\<close>

text \<open>
  Modelled from the spec: \<open>fitz.Rect.include_rect\<close> belongs to the engine; the
  specification describes the merged box as the union of the line boxes.
\<close>

definition include_rect :: "bbox \<Rightarrow> bbox \<Rightarrow> bbox" where
  "include_rect a b =
     \<lparr>bx0 = min (bx0 a) (bx0 b), by0 = min (by0 a) (by0 b),
      bx1 = max (bx1 a) (bx1 b), by1 = max (by1 a) (by1 b)\<rparr>"

record merged =
  mb_text :: string
  mb_style :: style_sig
  mb_bbox :: bbox

text \<open>
  The loop variables \<open>current_text\<close>, \<open>current_style_sig\<close> and \<open>current_bbox\<close> are only
  ever assigned together; \<open>ms_current = None\<close> stands for their initial values
  \<open>("", None, None)\<close>.
\<close>

record merge_state =
  ms_merged :: "merged list"
  ms_current :: "(string \<times> style_sig \<times> bbox) option"

text \<open>\<open>max(spans, key=...)\<close> on a non-empty list: the first span of greatest key.\<close>

definition longest_span :: "span list \<Rightarrow> span" where
  "longest_span spans =
     max_first (\<lambda>s. length (str_strip (dict_get (sp_text s) ''''))) (hd spans) (tl spans)"

definition merge_line :: "line \<Rightarrow> merge_state \<Rightarrow> merge_state" where
  "merge_line lin st =
     (let spans = dict_get (ln_spans lin) [] in
      if spans = [] then st
      else if str_strip (dict_get (sp_text (longest_span spans)) '''') = [] then st
      else
        let line_style_sig = get_style_signature (longest_span spans);
            line_text = str_strip (concat (map (\<lambda>s. dict_get (sp_text s) '''') spans));
            line_bbox = ln_bbox lin
        in case ms_current st of
             None \<Rightarrow> st\<lparr>ms_current := Some (line_text, line_style_sig, line_bbox)\<rparr>
           | Some (current_text, current_style_sig, current_bbox) \<Rightarrow>
               if line_style_sig = current_style_sig
               then st\<lparr>ms_current :=
                         Some (current_text @ '' '' @ line_text, current_style_sig,
                               include_rect current_bbox line_bbox)\<rparr>
               else
                 \<lparr>ms_merged =
                    (if current_text \<noteq> []
                     then ms_merged st @
                          [\<lparr>mb_text = current_text, mb_style = current_style_sig,
                            mb_bbox = current_bbox\<rparr>]
                     else ms_merged st),
                  ms_current = Some (line_text, line_style_sig, line_bbox)\<rparr>)"

definition merge_block :: "block \<Rightarrow> merge_state \<Rightarrow> merge_state" where
  "merge_block blk st =
     (if blk_type blk = 0 then fold merge_line (dict_get (blk_lines blk) []) st else st)"

definition merged_blocks_on_page :: "page \<Rightarrow> merged list" where
  "merged_blocks_on_page pg =
     (let st = fold merge_block (pg_blocks pg) \<lparr>ms_merged = [], ms_current = None\<rparr> in
      case ms_current st of
        None \<Rightarrow> ms_merged st
      | Some (current_text, current_style_sig, current_bbox) \<Rightarrow>
          if current_text \<noteq> []
          then ms_merged st @
               [\<lparr>mb_text = current_text, mb_style = current_style_sig, mb_bbox = current_bbox\<rparr>]
          else ms_merged st)"

text \<open>A merged block with the page data and raw spacing added to its dict.\<close>

record raw_block =
  rb_text :: string
  rb_style :: style_sig
  rb_bbox :: bbox
  rb_page_num :: nat
  rb_page_width :: real
  rb_page_height :: real
  rb_space_left :: real
  rb_space_right :: real
  rb_space_above :: real
  rb_space_below :: real

definition raw_block_at :: "nat \<Rightarrow> page \<Rightarrow> merged list \<Rightarrow> nat \<Rightarrow> raw_block" where
  "raw_block_at page_num pg merged_blocks i =
     (let blk_data = merged_blocks ! i; bb = mb_bbox blk_data in
      \<lparr>rb_text = mb_text blk_data, rb_style = mb_style blk_data, rb_bbox = bb,
       rb_page_num = page_num, rb_page_width = pg_width pg, rb_page_height = pg_height pg,
       rb_space_left = bx0 bb,
       rb_space_right = pg_width pg - bx1 bb,
       rb_space_above =
         (if i = 0 then by0 bb else by0 bb - by1 (mb_bbox (merged_blocks ! (i - 1)))),
       rb_space_below =
         (if i = length merged_blocks - 1 then pg_height pg - by1 bb
          else by0 (mb_bbox (merged_blocks ! (i + 1))) - by1 bb)\<rparr>)"

definition page_raw_data :: "nat \<Rightarrow> page \<Rightarrow> raw_block list" where
  "page_raw_data page_num pg =
     (if pg_blocks pg = [] then []
      else
        let merged_blocks = merged_blocks_on_page pg
        in map (raw_block_at page_num pg merged_blocks) [0..<length merged_blocks])"

text \<open>Pages are numbered from 1 here (\<open>enumerate(doc, 1)\<close>).\<close>

definition all_blocks_raw_data :: "document \<Rightarrow> raw_block list" where
  "all_blocks_raw_data doc =
     concat (map (\<lambda>(page_num, pg). page_raw_data page_num pg) (List.enumerate 1 doc))"

subsection \<open>Pass 2: normalisation and the CSV rows\<close>

text \<open>\<open>min(xs)\<close> and \<open>max(xs)\<close> of a non-empty list.\<close>

definition min_of :: "real list \<Rightarrow> real" where
  "min_of xs = fold min (tl xs) (hd xs)"

definition max_of :: "real list \<Rightarrow> real" where
  "max_of xs = fold max (tl xs) (hd xs)"

definition csv_header :: "string list" where
  "csv_header =
     [''page_number'', ''is_bold'', ''is_italic'', ''is_underline'', ''is_all_caps'',
      ''is_centered'', ''contains_number'', ''contains_fullstop'', ''word_count'',
      ''norm_font_size'', ''norm_space_above'', ''norm_space_below'',
      ''norm_space_left'', ''norm_space_right'', ''norm_r'', ''norm_g'', ''norm_b'',
      ''norm_x0'', ''norm_y0'', ''norm_x1'', ''norm_y1'',
      ''font'', ''font_size'', ''color_rgb'', ''x0'', ''y0'', ''x1'', ''y1'',
      ''space_above'', ''space_below'', ''space_left'', ''space_right'', ''text'']"

text \<open>The document-wide minimum and maximum of the five metrics.\<close>

record ranges =
  min_font :: real
  max_font :: real
  min_sa :: real
  max_sa :: real
  min_sb :: real
  max_sb :: real
  min_sl :: real
  max_sl :: real
  min_sr :: real
  max_sr :: real

definition font_size_of :: "raw_block \<Rightarrow> real" where
  "font_size_of b = fst (snd (rb_style b))"

definition ranges_of :: "raw_block list \<Rightarrow> ranges" where
  "ranges_of bs =
     (let font_sizes = map font_size_of bs;
          spaces_above = map rb_space_above bs;
          spaces_below = map rb_space_below bs;
          spaces_left = map rb_space_left bs;
          spaces_right = map rb_space_right bs
      in \<lparr>min_font = min_of font_sizes, max_font = max_of font_sizes,
          min_sa = min_of spaces_above, max_sa = max_of spaces_above,
          min_sb = min_of spaces_below, max_sb = max_of spaces_below,
          min_sl = min_of spaces_left, max_sl = max_of spaces_left,
          min_sr = min_of spaces_right, max_sr = max_of spaces_right\<rparr>)"

definition bool_int :: "bool \<Rightarrow> pyval" where
  "bool_int b = VInt (if b then 1 else 0)"

definition rounded :: "real \<Rightarrow> nat \<Rightarrow> pyval" where
  "rounded x n = VFloat (Finite (py_round x n))"

text \<open>\<open>x / d if d else 0\<close>, rounded to 4 digits: the integer 0 when \<open>d\<close> is zero.\<close>

definition norm_coord :: "real \<Rightarrow> real \<Rightarrow> pyval" where
  "norm_coord x d = (if d \<noteq> 0 then rounded (x / d) 4 else VInt 0)"

definition csv_row :: "ranges \<Rightarrow> raw_block \<Rightarrow> pyval list" where
  "csv_row rg blk_data =
     (case rb_style blk_data of
        (font, font_size, color_int, bold, italic, underline, all_caps) \<Rightarrow>
          let text = rb_text blk_data; bb = rb_bbox blk_data;
              norm_font_size = normalize_value font_size (min_font rg) (max_font rg);
              norm_sa = normalize_value (rb_space_above blk_data) (min_sa rg) (max_sa rg);
              norm_sb = normalize_value (rb_space_below blk_data) (min_sb rg) (max_sb rg);
              norm_sl = normalize_value (rb_space_left blk_data) (min_sl rg) (max_sl rg);
              norm_sr = normalize_value (rb_space_right blk_data) (min_sr rg) (max_sr rg);
              page_width = rb_page_width blk_data;
              page_height = rb_page_height blk_data;
              contains_number = (\<exists>c \<in> set text. isdigit c);
              contains_fullstop = (CHR ''.'' \<in> set text);
              word_count = length (str_split text);
              is_centered = (\<bar>rb_space_left blk_data - rb_space_right blk_data\<bar> < 5);
              color_rgb = convert_color_int_to_rgb color_int;
              color_str =
                (case color_rgb of
                   Some (r, g, b) \<Rightarrow>
                     ''('' @ str_int r @ '', '' @ str_int g @ '', '' @ str_int b @ '')''
                 | None \<Rightarrow> ''(0, 0, 0)'');
              norm_r = (case color_rgb of Some (r, g, b) \<Rightarrow> of_int r / 255 | None \<Rightarrow> 0);
              norm_g = (case color_rgb of Some (r, g, b) \<Rightarrow> of_int g / 255 | None \<Rightarrow> 0);
              norm_b = (case color_rgb of Some (r, g, b) \<Rightarrow> of_int b / 255 | None \<Rightarrow> 0)
          in [VInt (int (rb_page_num blk_data)), bool_int bold, bool_int italic,
              bool_int underline, bool_int all_caps,
              bool_int is_centered, bool_int contains_number, bool_int contains_fullstop,
              VInt (int word_count),
              rounded norm_font_size 4, rounded norm_sa 4, rounded norm_sb 4,
              rounded norm_sl 4, rounded norm_sr 4,
              rounded norm_r 4, rounded norm_g 4, rounded norm_b 4,
              norm_coord (bx0 bb) page_width, norm_coord (by0 bb) page_height,
              norm_coord (bx1 bb) page_width, norm_coord (by1 bb) page_height,
              VStr font, VFloat (Finite font_size), VStr color_str,
              rounded (bx0 bb) 2, rounded (by0 bb) 2, rounded (bx1 bb) 2, rounded (by1 bb) 2,
              rounded (rb_space_above blk_data) 2, rounded (rb_space_below blk_data) 2,
              rounded (rb_space_left blk_data) 2, rounded (rb_space_right blk_data) 2,
              VStr text])"

subsection \<open>\<open>extract_and_process_pdf\<close> and the command line\<close>

definition dashes :: string where
  "dashes = replicate 30 CHR ''-''"

text \<open>
  The lines of the \<open>finally\<close> clause: \<open>if doc\<close> is true when the document has at least
  one page (a document's truth value is its page count).
\<close>

definition closing_lines :: "document \<Rightarrow> string list" where
  "closing_lines doc =
     (if doc \<noteq> [] then [CHR 0x0A # dashes, ''Processing complete. Document closed.''] else [])"

text \<open>
  \<open>extract_and_process_pdf\<close>. Every exception is caught inside, so \<open>run_raised\<close> is
  always \<open>None\<close>. \<open>write_error\<close> is the failure of opening the CSV path for writing,
  if any; a missing directory is a FileNotFoundError and is reported by the first
  \<open>except\<close> clause.
\<close>

definition extract_and_process_pdf ::
    "open_failure + document \<Rightarrow> open_failure option \<Rightarrow> string \<Rightarrow> string \<Rightarrow> run" where
  "extract_and_process_pdf opened write_error pdf_path csv_path =
     (case opened of
        Inl (FileNotFound m) \<Rightarrow>
          \<lparr>run_printed = [''Error: The file '' @ quoted pdf_path @ '' was not found.''],
           run_csv = None, run_raised = None\<rparr>
      | Inl (OtherFailure m) \<Rightarrow>
          \<lparr>run_printed = [''An error occurred: '' @ m], run_csv = None, run_raised = None\<rparr>
      | Inr doc \<Rightarrow>
          (let p1 = [''Successfully opened '' @ quoted pdf_path,
                     ''Number of pages: '' @ str_nat (length doc) @ [CHR 0x0A],
                     dashes,
                     ''Starting Pass 1: Analyzing document structure...''];
               blocks = all_blocks_raw_data doc
           in if blocks = []
              then \<lparr>run_printed = p1 @ [''No text content found in the PDF.''] @ closing_lines doc,
                    run_csv = None, run_raised = None\<rparr>
              else
                (let rg = ranges_of blocks;
                     p2 = p1 @ [''Starting Pass 2: Normalizing data and writing to CSV...'']
                 in case write_error of
                      Some (FileNotFound m) \<Rightarrow>
                        \<lparr>run_printed =
                           p2 @ [''Error: The file '' @ quoted pdf_path @ '' was not found.'']
                              @ closing_lines doc,
                         run_csv = None, run_raised = None\<rparr>
                    | Some (OtherFailure m) \<Rightarrow>
                        \<lparr>run_printed = p2 @ [''An error occurred: '' @ m] @ closing_lines doc,
                         run_csv = None, run_raised = None\<rparr>
                    | None \<Rightarrow>
                        \<lparr>run_printed = p2 @ closing_lines doc,
                         run_csv = Some (csv_header, map (csv_row rg) blocks),
                         run_raised = None\<rparr>)))"

text \<open>The \<open>__main__\<close> block of \<open>feature-extractor.py\<close>.\<close>

definition fx_main :: "env \<Rightarrow> string list \<Rightarrow> cli" where
  "fx_main ev argv =
     (if length argv < 3
      then \<lparr>cli_printed =
              [''Usage: python your_script_name.py <path_to_pdf_file> <output_csv_file>''],
            cli_exit = Some 1, cli_makedirs = [], cli_run = None\<rparr>
      else
        (let pdf_file_path = argv ! 1; csv_file_path = argv ! 2;
             r = extract_and_process_pdf (fs_open_pdf ev pdf_file_path)
                   (fs_write_error ev csv_file_path) pdf_file_path csv_file_path
         in \<lparr>cli_printed = run_printed r, cli_exit = None, cli_makedirs = [], cli_run = Some r\<rparr>))"

subsection \<open>Reading the rows\<close>

text \<open>\<open>row[key]\<close> for a key that may be absent, and that column of a list of rows.\<close>

definition field :: "string \<Rightarrow> row \<Rightarrow> pyval option" where
  "field key r = map_of r key"

definition column :: "string \<Rightarrow> row list \<Rightarrow> pyval option list" where
  "column key rs = map (field key) rs"

text \<open>
  The underline condition in the words of the specification: the path is a horizontal
  line (height below 1.0, width above 0), its \<open>y0\<close> lies strictly within
  \<open>font_size * 0.2\<close> of the block's bottom edge \<open>y1\<close>, and its horizontal extent
  overlaps the block's.
\<close>

definition underlines :: "real \<Rightarrow> real \<Rightarrow> real \<Rightarrow> int \<Rightarrow> path_rect \<Rightarrow> bool" where
  "underlines x0 x1 y1 font_size p =
     ((pr_height p < 1 \<and> pr_width p > 0)
      \<and> \<bar>pr_y0 p - y1\<bar> < of_int font_size * 0.2
      \<and> max x0 (pr_x0 p) < min x1 (pr_x1 p))"

text \<open>A page with one underlined block, a stroke far above it, and a second block.\<close>

definition example_page :: page where
  "example_page =
     \<lparr>pg_width = 612, pg_height = 792,
      pg_blocks =
        [mk_block ''Overview'' ''Helvetica'' 16 120,
         mk_block ''Plain text follows here.'' ''Helvetica'' 10 150],
      pg_drawings =
        [\<lparr>pr_x0 = 72, pr_y0 = 40, pr_x1 = 300, pr_width = 228, pr_height = 0.5\<rparr>,
         \<lparr>pr_x0 = 400, pr_y0 = 136.5, pr_x1 = 500, pr_width = 100, pr_height = 0.5\<rparr>,
         \<lparr>pr_x0 = 72, pr_y0 = 136.5, pr_x1 = 200, pr_width = 128, pr_height = 0.5\<rparr>,
         \<lparr>pr_x0 = 72, pr_y0 = 137, pr_x1 = 200, pr_width = 128, pr_height = 3\<rparr>]\<rparr>"

definition example_env :: env where
  "example_env =
     \<lparr>fs_exists = (\<lambda>p. p = ''in.pdf''),
      fs_open_pdf = (\<lambda>p. if p = ''in.pdf'' then Inr example_doc else Inl (FileNotFound ''no such file'')),
      fs_write_error = (\<lambda>p. None)\<rparr>"

text \<open>The number held by a row under a key, when it holds a finite number.\<close>

definition feature_num :: "string \<Rightarrow> row \<Rightarrow> real option" where
  "feature_num key r =
     (case map_of r key of
        None \<Rightarrow> None
      | Some v \<Rightarrow> (case num v of Inr (Finite x) \<Rightarrow> Some x | _ \<Rightarrow> None))"

text \<open>The values of a feature over the rows (0 where a row has no finite number).\<close>

definition feature_values :: "string \<Rightarrow> row list \<Rightarrow> real list" where
  "feature_values key rs = map (\<lambda>r. dict_get (feature_num key r) 0) rs"

text \<open>The keys of \<open>block_data\<close> in insertion order, and the keys the second pass adds.\<close>

definition base_keys :: "string list" where
  "base_keys =
     [''text'', ''font'', ''font_size'', ''is_bold'', ''is_italic'', ''is_underline'',
      ''is_all_caps'', ''is_centered'', ''contains_number'', ''contains_fullstop'',
      ''word_count'', ''x0'', ''y0'', ''x1'', ''y1'', ''space_above'', ''space_below'',
      ''space_left'', ''space_right'', ''page_number'']"

definition norm_keys_added :: "string list" where
  "norm_keys_added = map (\<lambda>key. ''norm_'' @ key) features_to_normalize"

text \<open>
  A document without text, in the words of the specification: no span of a text block
  has text that is non-empty after trimming.
\<close>

definition no_text :: "document \<Rightarrow> bool" where
  "no_text doc =
     (\<forall>pg \<in> set doc. \<forall>blk \<in> set (pg_blocks pg).
        blk_type blk = 0 \<longrightarrow>
        (\<forall>sp \<in> set (block_spans blk). str_strip (dict_get (sp_text sp) '''') = []))"

text \<open>A page whose block coordinates are not multiples of 0.01, and documents around it.\<close>

definition example_page_fraction :: page where
  "example_page_fraction =
     \<lparr>pg_width = 612, pg_height = 792,
      pg_blocks =
        [mk_block ''First'' ''Helvetica'' 10 50.004,
         mk_block ''Second block'' ''Helvetica'' 10 100.13],
      pg_drawings = []\<rparr>"

text \<open>A document of one page holding an image block and a text block of blanks.\<close>

definition example_doc_blank :: document where
  "example_doc_blank =
     [\<lparr>pg_width = 612, pg_height = 792,
       pg_blocks =
         [\<lparr>blk_type = 1, blk_lines = None, blk_bbox = \<lparr>bx0 = 0, by0 = 0, bx1 = 100, by1 = 100\<rparr>\<rparr>,
          mk_block ''   '' ''Helvetica'' 10 150],
       pg_drawings = []\<rparr>]"

text \<open>The cells that \<open>csv.DictWriter\<close> writes for rows holding exactly the 25 keys.\<close>

definition cells_of :: "row list \<Rightarrow> pyval list list" where
  "cells_of rows' =
     map (\<lambda>r. map (\<lambda>k. dict_get (map_of r k) (VStr [])) (base_keys @ norm_keys_added)) rows'"

text \<open>The five normalised metrics of the Merged-Block extractor, in the order of its columns.\<close>

definition fx_metrics :: "(raw_block \<Rightarrow> real) list" where
  "fx_metrics = [font_size_of, rb_space_above, rb_space_below, rb_space_left, rb_space_right]"

section \<open>Properties of the outline tool\<close>

subsection \<open>Splitting and trimming\<close>

lemma split_run_no_empty: "[] \<notin> set (split_run cur s)"
  by (induction s arbitrary: cur) auto

lemma str_split_no_empty: "w \<in> set (str_split s) \<Longrightarrow> w \<noteq> []"
  using split_run_no_empty [of "[]" s] by (auto simp: str_split_def)

lemma split_run_nonempty: "cur \<noteq> [] \<or> (\<exists>c \<in> set s. \<not> isspace c) \<Longrightarrow> split_run cur s \<noteq> []"
  by (induction s arbitrary: cur) auto

lemma str_strip_last_nonspace: "str_strip s \<noteq> [] \<Longrightarrow> \<not> isspace (last (str_strip s))"
  unfolding str_strip_def
  by (metis hd_dropWhile last_rev rev_is_Nil_conv)

lemma str_strip_words: "str_strip s \<noteq> [] \<Longrightarrow> str_split (str_strip s) \<noteq> []"
proof -
  assume a: "str_strip s \<noteq> []"
  then have "last (str_strip s) \<in> set (str_strip s)" by simp
  with str_strip_last_nonspace [OF a] have "\<exists>c \<in> set (str_strip s). \<not> isspace c" by blast
  then show ?thesis unfolding str_split_def using split_run_nonempty by blast
qed

lemma cap_guard: "filter (\<lambda>w. w \<noteq> [] \<and> isupper (hd w)) (str_split s) = filter (\<lambda>w. isupper (hd w)) (str_split s)"
  by (rule filter_cong) (auto dest: str_split_no_empty)

text \<open>
  C8. On the trimmed text, \<open>is_heading_nlp\<close> is false when the text is empty or ends
  in one of \<open>. ? !\<close>, false when it has more than 10 words, false when it has fewer
  than 3 alphanumeric characters, and otherwise true exactly when at least half of the
  words start with an uppercase character (there is at least one word then, so the
  fraction is defined). \<open>Conclusion\<close> is a heading; \<open>This is a normal sentence.\<close>
  is not.
\<close>

theorem is_heading_nlp_shape:
  "(let txt = str_strip s; words = str_split txt;
        alnum_count = length (filter isalnum txt);
        cap = length (filter (\<lambda>w. isupper (hd w)) words)
    in (txt = [] \<or> last txt \<in> {CHR ''.'', CHR ''?'', CHR ''!''} \<longrightarrow> \<not> is_heading_nlp s)
     \<and> (length words > 10 \<longrightarrow> \<not> is_heading_nlp s)
     \<and> (alnum_count < 3 \<longrightarrow> \<not> is_heading_nlp s)
     \<and> (txt \<noteq> [] \<and> last txt \<notin> {CHR ''.'', CHR ''?'', CHR ''!''} \<and> length words \<le> 10
          \<and> 3 \<le> alnum_count \<longrightarrow>
          0 < length words \<and> is_heading_nlp s = (1 / 2 \<le> real cap / real (length words))))
   \<and> is_heading_nlp ''Conclusion''
   \<and> \<not> is_heading_nlp ''This is a normal sentence.''"
proof -
  have ex1: "is_heading_nlp ''Conclusion''"
    by (simp add: is_heading_nlp_def str_strip_def str_split_def isspace_def between_def cp_def
        isalnum_def isalpha_def isupper_def)
  have ex2: "\<not> is_heading_nlp ''This is a normal sentence.''"
    by (simp add: is_heading_nlp_def str_strip_def isspace_def between_def cp_def)
  have wc: "str_strip s \<noteq> [] \<Longrightarrow> 0 < length (str_split (str_strip s))"
    using str_strip_words [of s] by simp
  have shape:
    "(str_strip s = [] \<or> last (str_strip s) \<in> {CHR ''.'', CHR ''?'', CHR ''!''}
        \<longrightarrow> \<not> is_heading_nlp s)
     \<and> (length (str_split (str_strip s)) > 10 \<longrightarrow> \<not> is_heading_nlp s)
     \<and> (length (filter isalnum (str_strip s)) < 3 \<longrightarrow> \<not> is_heading_nlp s)
     \<and> (str_strip s \<noteq> [] \<and> last (str_strip s) \<notin> {CHR ''.'', CHR ''?'', CHR ''!''}
          \<and> length (str_split (str_strip s)) \<le> 10
          \<and> 3 \<le> length (filter isalnum (str_strip s)) \<longrightarrow>
          0 < length (str_split (str_strip s))
          \<and> is_heading_nlp s =
              (1 / 2 \<le> real (length (filter (\<lambda>w. isupper (hd w)) (str_split (str_strip s))))
                 / real (length (str_split (str_strip s)))))"
    using wc by (auto simp: is_heading_nlp_def Let_def cap_guard)
  show ?thesis
    unfolding Let_def using shape ex1 ex2 by blast
qed

theorem is_heading_nlp_shape_witness:
  "is_heading_nlp ''  Project Plan of Year '' \<and> \<not> is_heading_nlp ''a b c d e f g h i j k''
   \<and> \<not> is_heading_nlp ''A.'' \<and> \<not> is_heading_nlp ''Ab''"
  using is_heading_nlp_shape [of "''  Project Plan of Year ''"]
    is_heading_nlp_shape [of "''a b c d e f g h i j k''"]
    is_heading_nlp_shape [of "''A.''"] is_heading_nlp_shape [of "''Ab''"]
  by (simp add: str_strip_def str_split_def isspace_def between_def cp_def
        isalnum_def isalpha_def isupper_def isdecimal_def isdigit_def Let_def)

subsection \<open>Hierarchy normalisation\<close>

lemma parse_relabel:
  assumes "1 \<le> n" "n \<le> 9"
  shows "parse_level (nd\<lparr>nd_level := Some (''H'' @ str_int n)\<rparr>) = Inr n"
proof -
  have all: "\<forall>k \<in> set [1..9]. parse_level (nd\<lparr>nd_level := Some (''H'' @ str_int k)\<rparr>) = Inr k"
    by (simp add: upto.simps parse_level_def dict_get_def str_int_def int_of_char_def
        isdecimal_def between_def cp_def)
  from assms have "n \<in> set [1..9]" by simp
  with all show ?thesis by blast
qed

lemma parse_label:
  assumes "nd_level nd = Some (''H'' @ str_int L)" "1 \<le> L" "L \<le> 9"
  shows "parse_level nd = Inr L"
proof -
  have "nd = nd\<lparr>nd_level := Some (''H'' @ str_int L)\<rparr>" using assms(1) by simp
  then show ?thesis using parse_relabel [OF assms(2,3), of nd] by simp
qed

lemma parse_level_range: "parse_level nd = Inr L \<Longrightarrow> 0 \<le> L \<and> L \<le> 9"
  by (auto simp: parse_level_def int_of_char_def isdecimal_def between_def Let_def
      split: if_splits)

lemma spec_levels_length: "length (spec_levels lst Ls) = length Ls"
  by (induction Ls arbitrary: lst) auto

lemma spec_levels_bounds:
  "\<forall>L \<in> set Ls. 1 \<le> L \<and> L \<le> 9 \<Longrightarrow> 0 \<le> lst \<Longrightarrow> l \<in> set (spec_levels lst Ls) \<Longrightarrow> 1 \<le> l \<and> l \<le> 9"
proof (induction Ls arbitrary: lst)
  case Nil
  then show ?case by simp
next
  case (Cons L Ls)
  have rest: "\<forall>L \<in> set Ls. 1 \<le> L \<and> L \<le> 9" and L: "1 \<le> L" "L \<le> 9"
    using Cons.prems(1) by auto
  have ih: "0 \<le> k \<Longrightarrow> l \<in> set (spec_levels k Ls) \<Longrightarrow> 1 \<le> l \<and> l \<le> 9" for k
    using Cons.IH [OF rest] by blast
  from Cons.prems(3) show ?case
    using ih [of 1] ih [of "lst + 1"] ih [of L] L Cons.prems(2)
    by (auto split: if_splits)
qed


lemma adjust_loop_Cons:
  "parse_level nd = Inr L \<Longrightarrow> adjust_loop k rest = Inr out \<Longrightarrow>
   k = (if lst = 0 \<and> L > 1 then 1 else if L > lst + 1 then lst + 1 else L) \<Longrightarrow>
   adjust_loop lst (nd # rest) = Inr (nd\<lparr>nd_level := Some (''H'' @ str_int k)\<rparr> # out)"
  by (simp add: Let_def)

lemma spec_levels_Cons:
  "spec_levels lst (L # Ls) =
     (if lst = 0 \<and> L > 1 then 1 else if L > lst + 1 then lst + 1 else L)
     # spec_levels (if lst = 0 \<and> L > 1 then 1 else if L > lst + 1 then lst + 1 else L) Ls"
  by simp

lemma adjust_loop_spec:
  assumes "map parse_level outline = map Inr Ls"
  shows "adjust_loop lst outline =
     Inr (map2 (\<lambda>nd l. nd\<lparr>nd_level := Some (''H'' @ str_int l)\<rparr>) outline (spec_levels lst Ls))"
  using assms
proof (induction outline arbitrary: Ls lst)
  case Nil
  then show ?case by simp
next
  case (Cons nd rest)
  then obtain L Ls' where Ls: "Ls = L # Ls'" by (cases Ls) auto
  with Cons.prems have p: "parse_level nd = Inr L" and r: "map parse_level rest = map Inr Ls'"
    by auto
  define k where "k = (if lst = 0 \<and> L > 1 then 1 else if L > lst + 1 then lst + 1 else L)"
  have sl: "spec_levels lst (L # Ls') = k # spec_levels k Ls'"
    unfolding k_def by (rule spec_levels_Cons)
  show ?case
    unfolding Ls sl using adjust_loop_Cons [OF p Cons.IH [OF r, of k] k_def] by simp
qed

lemma spec_levels_step:
  "\<forall>L \<in> set Ls. 0 < L \<Longrightarrow> 0 \<le> lst \<Longrightarrow> i < length Ls \<Longrightarrow>
   spec_levels lst Ls ! i \<le> (if i = 0 then lst else spec_levels lst Ls ! (i - 1)) + 1"
proof (induction Ls arbitrary: lst i)
  case Nil
  then show ?case by simp
next
  case (Cons L Ls)
  define k where "k = (if lst = 0 \<and> L > 1 then 1 else if L > lst + 1 then lst + 1 else L)"
  have sl: "spec_levels lst (L # Ls) = k # spec_levels k Ls"
    unfolding k_def by (rule spec_levels_Cons)
  have k: "k \<le> lst + 1" "0 \<le> k" using Cons.prems(1,2) by (auto simp: k_def)
  show ?case
  proof (cases i)
    case 0
    then show ?thesis unfolding sl using k by simp
  next
    case (Suc j)
    with Cons.prems have j: "j < length Ls" and pos: "\<forall>L \<in> set Ls. 0 < L" by auto
    have "spec_levels k Ls ! j \<le> (if j = 0 then k else spec_levels k Ls ! (j - 1)) + 1"
      using Cons.IH [OF pos k(2) j] .
    then show ?thesis unfolding sl Suc by (cases j) simp_all
  qed
qed

lemma spec_levels_first: "0 < L \<Longrightarrow> spec_levels 0 (L # Ls) ! 0 = 1"
  by auto





text \<open>
  C1, as amended. For a list of nodes labelled \<open>H\<close> followed by one digit, the levels
  \<open>Ls\<close> between 1 and 9, \<open>adjust_hierarchy\<close> returns the nodes in order, each relabelled
  \<open>H\<close> followed by the level that the rule of the specification assigns
  (\<open>spec_levels\<close>, started at \<open>last_level = 0\<close>); the new label parses to that level,
  and no assigned level exceeds the previous node's assigned level (0 before the first
  node) by more than 1. The levels H3, H1, H4, H2 become H1, H1, H2, H2.
\<close>

theorem adjust_hierarchy_walk:
  assumes "map nd_level outline = map (\<lambda>L. Some (''H'' @ str_int L)) Ls"
    and "\<forall>L \<in> set Ls. 1 \<le> L \<and> L \<le> 9"
  shows "(\<exists>out. adjust_hierarchy outline = Inr out
       \<and> length out = length outline
       \<and> (\<forall>i < length outline.
            out ! i = (outline ! i)\<lparr>nd_level := Some (''H'' @ str_int (spec_levels 0 Ls ! i))\<rparr>
          \<and> parse_level (out ! i) = Inr (spec_levels 0 Ls ! i)
          \<and> spec_levels 0 Ls ! i \<le> (if i = 0 then 0 else spec_levels 0 Ls ! (i - 1)) + 1))
     \<and> adjust_hierarchy
         [\<lparr>nd_level = Some ''H3'', nd_text = t1, nd_page = p1\<rparr>,
          \<lparr>nd_level = Some ''H1'', nd_text = t2, nd_page = p2\<rparr>,
          \<lparr>nd_level = Some ''H4'', nd_text = t3, nd_page = p3\<rparr>,
          \<lparr>nd_level = Some ''H2'', nd_text = t4, nd_page = p4\<rparr>]
       = Inr [\<lparr>nd_level = Some ''H1'', nd_text = t1, nd_page = p1\<rparr>,
              \<lparr>nd_level = Some ''H1'', nd_text = t2, nd_page = p2\<rparr>,
              \<lparr>nd_level = Some ''H2'', nd_text = t3, nd_page = p3\<rparr>,
              \<lparr>nd_level = Some ''H2'', nd_text = t4, nd_page = p4\<rparr>]"
proof -
  let ?ls = "spec_levels 0 Ls"
  let ?out = "map2 (\<lambda>nd l. nd\<lparr>nd_level := Some (''H'' @ str_int l)\<rparr>) outline ?ls"
  have len: "length Ls = length outline"
    using assms(1) by (metis length_map)
  note range = assms(2)
  have pos: "\<forall>L \<in> set Ls. 0 < L" using range by force
  have parsed: "map parse_level outline = map Inr Ls"
  proof (rule nth_equalityI)
    show "length (map parse_level outline) = length (map Inr Ls)" using len by simp
  next
    fix i assume "i < length (map parse_level outline)"
    then have i: "i < length outline" by simp
    then have iL: "i < length Ls" using len by simp
    have "map nd_level outline ! i = map (\<lambda>L. Some (''H'' @ str_int L)) Ls ! i"
      using assms(1) by simp
    then have lab: "nd_level (outline ! i) = Some (''H'' @ str_int (Ls ! i))"
      using i iL by simp
    have "Ls ! i \<in> set Ls" using iL by simp
    with range have b: "1 \<le> Ls ! i" "Ls ! i \<le> 9" by simp_all
    from parse_label [OF lab b] show "map parse_level outline ! i = map Inr Ls ! i"
      using i iL by simp
  qed
  have run: "adjust_hierarchy outline = Inr ?out"
    unfolding adjust_hierarchy_def by (rule adjust_loop_spec [OF parsed])
  have pt: "?out ! i = (outline ! i)\<lparr>nd_level := Some (''H'' @ str_int (?ls ! i))\<rparr>
          \<and> parse_level (?out ! i) = Inr (?ls ! i)
          \<and> ?ls ! i \<le> (if i = 0 then 0 else ?ls ! (i - 1)) + 1"
    if i: "i < length outline" for i
  proof -
    have i': "i < length ?ls" using i len by (simp add: spec_levels_length)
    then have "?ls ! i \<in> set ?ls" by simp
    from spec_levels_bounds [OF range _ this] have b: "1 \<le> ?ls ! i" "?ls ! i \<le> 9" by simp_all
    have o: "?out ! i = (outline ! i)\<lparr>nd_level := Some (''H'' @ str_int (?ls ! i))\<rparr>"
      using i i' by simp
    have s: "?ls ! i \<le> (if i = 0 then 0 else ?ls ! (i - 1)) + 1"
      using spec_levels_step [OF pos, of 0 i] i len by simp
    show ?thesis unfolding o using parse_relabel [OF b] s by simp
  qed
  have ex: "adjust_hierarchy
         [\<lparr>nd_level = Some ''H3'', nd_text = t1, nd_page = p1\<rparr>,
          \<lparr>nd_level = Some ''H1'', nd_text = t2, nd_page = p2\<rparr>,
          \<lparr>nd_level = Some ''H4'', nd_text = t3, nd_page = p3\<rparr>,
          \<lparr>nd_level = Some ''H2'', nd_text = t4, nd_page = p4\<rparr>]
       = Inr [\<lparr>nd_level = Some ''H1'', nd_text = t1, nd_page = p1\<rparr>,
              \<lparr>nd_level = Some ''H1'', nd_text = t2, nd_page = p2\<rparr>,
              \<lparr>nd_level = Some ''H2'', nd_text = t3, nd_page = p3\<rparr>,
              \<lparr>nd_level = Some ''H2'', nd_text = t4, nd_page = p4\<rparr>]"
    by (simp add: adjust_hierarchy_def parse_level_def dict_get_def int_of_char_def
        isdecimal_def between_def cp_def str_int_def)
  have "length ?out = length outline" using len by (simp add: spec_levels_length)
  with run pt ex show ?thesis by simp
qed

theorem adjust_hierarchy_walk_witness:
  "adjust_hierarchy
     [\<lparr>nd_level = Some ''H2'', nd_text = ''Intro'', nd_page = 0\<rparr>,
      \<lparr>nd_level = Some ''H5'', nd_text = ''Scope'', nd_page = 1\<rparr>,
      \<lparr>nd_level = Some ''H9'', nd_text = ''Detail'', nd_page = 1\<rparr>,
      \<lparr>nd_level = Some ''H1'', nd_text = ''Next'', nd_page = 2\<rparr>]
   = Inr [\<lparr>nd_level = Some ''H1'', nd_text = ''Intro'', nd_page = 0\<rparr>,
          \<lparr>nd_level = Some ''H2'', nd_text = ''Scope'', nd_page = 1\<rparr>,
          \<lparr>nd_level = Some ''H3'', nd_text = ''Detail'', nd_page = 1\<rparr>,
          \<lparr>nd_level = Some ''H1'', nd_text = ''Next'', nd_page = 2\<rparr>]"
proof -
  let ?outline = "[\<lparr>nd_level = Some ''H2'', nd_text = ''Intro'', nd_page = 0\<rparr>,
      \<lparr>nd_level = Some ''H5'', nd_text = ''Scope'', nd_page = 1\<rparr>,
      \<lparr>nd_level = Some ''H9'', nd_text = ''Detail'', nd_page = 1\<rparr>,
      \<lparr>nd_level = Some ''H1'', nd_text = ''Next'', nd_page = 2\<rparr>]"
  have h1: "map nd_level ?outline = map (\<lambda>L. Some (''H'' @ str_int L)) [2, 5, 9, 1]"
    by (simp add: str_int_def)
  have h2: "\<forall>L \<in> set [2, 5, 9, 1 :: int]. 1 \<le> L \<and> L \<le> 9" by simp
  from adjust_hierarchy_walk [OF h1 h2, THEN conjunct1]
  obtain out where o: "adjust_hierarchy ?outline = Inr out" "length out = length ?outline"
    and pt: "\<forall>i < length ?outline.
            out ! i = (?outline ! i)\<lparr>nd_level := Some (''H'' @ str_int (spec_levels 0 [2, 5, 9, 1] ! i))\<rparr>
          \<and> parse_level (out ! i) = Inr (spec_levels 0 [2, 5, 9, 1] ! i)
          \<and> spec_levels 0 [2, 5, 9, 1] ! i
              \<le> (if i = 0 then 0 else spec_levels 0 [2, 5, 9, 1] ! (i - 1)) + 1"
    by (elim exE conjE)
  have len: "length out = 4" using o(2) by simp
  have p0: "out ! 0 = \<lparr>nd_level = Some ''H1'', nd_text = ''Intro'', nd_page = 0\<rparr>"
    using pt [rule_format, of 0] by (simp add: str_int_def)
  have p1: "out ! 1 = \<lparr>nd_level = Some ''H2'', nd_text = ''Scope'', nd_page = 1\<rparr>"
    using pt [rule_format, of 1] by (simp add: str_int_def)
  have p2: "out ! 2 = \<lparr>nd_level = Some ''H3'', nd_text = ''Detail'', nd_page = 1\<rparr>"
    using pt [rule_format, of 2] by (simp add: str_int_def)
  have p3: "out ! 3 = \<lparr>nd_level = Some ''H1'', nd_text = ''Next'', nd_page = 2\<rparr>"
    using pt [rule_format, of 3] by (simp add: str_int_def)
  have "out = [out ! 0, out ! 1, out ! 2, out ! 3]"
  proof (rule nth_equalityI)
    show "length out = length [out ! 0, out ! 1, out ! 2, out ! 3]" using len by simp
  next
    fix i assume "i < length out"
    then have "i = 0 \<or> i = 1 \<or> i = 2 \<or> i = 3" using len by arith
    then show "out ! i = [out ! 0, out ! 1, out ! 2, out ! 3] ! i" by (elim disjE) simp_all
  qed
  then have "out = [\<lparr>nd_level = Some ''H1'', nd_text = ''Intro'', nd_page = 0\<rparr>,
          \<lparr>nd_level = Some ''H2'', nd_text = ''Scope'', nd_page = 1\<rparr>,
          \<lparr>nd_level = Some ''H3'', nd_text = ''Detail'', nd_page = 1\<rparr>,
          \<lparr>nd_level = Some ''H1'', nd_text = ''Next'', nd_page = 2\<rparr>]"
    unfolding p0 p1 p2 p3 .
  then show ?thesis using o(1) by simp
qed

text \<open>
  A label of two digits: the code reads the digit at index 1 alone, so \<open>H12\<close> after
  \<open>H1\<close> is taken as level 1 and comes out as \<open>H1\<close>, where the rule on the levels 1, 12
  assigns 1, 2.
\<close>

theorem adjust_hierarchy_two_digit_counterexample:
  "adjust_hierarchy
     [\<lparr>nd_level = Some ''H1'', nd_text = ''Intro'', nd_page = 0\<rparr>,
      \<lparr>nd_level = Some ''H12'', nd_text = ''Deep'', nd_page = 1\<rparr>]
   = Inr [\<lparr>nd_level = Some ''H1'', nd_text = ''Intro'', nd_page = 0\<rparr>,
          \<lparr>nd_level = Some ''H1'', nd_text = ''Deep'', nd_page = 1\<rparr>]
   \<and> spec_levels 0 [1, 12] = [1, 2]
   \<and> ''H'' @ str_int 12 = ''H12''"
  by (simp add: adjust_hierarchy_def parse_level_def dict_get_def int_of_char_def
      isdecimal_def between_def cp_def str_int_def)

subsection \<open>Title detection and the levels of the outline\<close>

lemma heading_nodes_levels:
  "n \<in> set (heading_nodes th b) \<Longrightarrow> nd_level n = Some ''H1'' \<or> nd_level n = Some ''H2''"
  by (auto simp: heading_nodes_def Let_def split: if_splits)








lemma parse_level_H1: "nd_level n = Some ''H1'' \<Longrightarrow> parse_level n = Inr 1"
  by (simp add: parse_level_def dict_get_def int_of_char_def isdecimal_def between_def cp_def)

lemma parse_level_H2: "nd_level n = Some ''H2'' \<Longrightarrow> parse_level n = Inr 2"
  by (simp add: parse_level_def dict_get_def int_of_char_def isdecimal_def between_def cp_def)

lemma spec_levels_12:
  "\<forall>L \<in> set Ls. L = 1 \<or> L = 2 \<Longrightarrow> lst = 0 \<or> lst = 1 \<or> lst = 2 \<Longrightarrow>
   l \<in> set (spec_levels lst Ls) \<Longrightarrow> l = 1 \<or> l = 2"
proof (induction Ls arbitrary: lst)
  case Nil
  then show ?case by simp
next
  case (Cons L Ls)
  have rest: "\<forall>L \<in> set Ls. L = 1 \<or> L = 2" and L: "L = 1 \<or> L = 2"
    using Cons.prems(1) by auto
  have ih: "k = 0 \<or> k = 1 \<or> k = 2 \<Longrightarrow> l \<in> set (spec_levels k Ls) \<Longrightarrow> l = 1 \<or> l = 2" for k
    using Cons.IH [OF rest] by blast
  from Cons.prems(3) show ?case
    using ih [of 1] ih [of 2] L Cons.prems(2)
    by (auto split: if_splits)
qed

lemma adjust_hierarchy_12:
  assumes "\<forall>n \<in> set outline. nd_level n = Some ''H1'' \<or> nd_level n = Some ''H2''"
  shows "\<exists>out. adjust_hierarchy outline = Inr out \<and> length out = length outline
     \<and> (\<forall>n \<in> set out. nd_level n = Some ''H1'' \<or> nd_level n = Some ''H2'')"
proof -
  let ?Ls = "map (\<lambda>n. if nd_level n = Some ''H1'' then 1 else (2::int)) outline"
  let ?out = "map2 (\<lambda>nd l. nd\<lparr>nd_level := Some (''H'' @ str_int l)\<rparr>) outline (spec_levels 0 ?Ls)"
  have p: "map parse_level outline = map Inr ?Ls"
  proof (rule nth_equalityI)
    show "length (map parse_level outline) = length (map Inr ?Ls)" by simp
  next
    fix i assume "i < length (map parse_level outline)"
    then have i: "i < length outline" by simp
    then have "outline ! i \<in> set outline" by simp
    with assms have "nd_level (outline ! i) = Some ''H1'' \<or> nd_level (outline ! i) = Some ''H2''"
      by blast
    then have "parse_level (outline ! i) = Inr (if nd_level (outline ! i) = Some ''H1'' then 1 else 2)"
      using parse_level_H1 parse_level_H2 by auto
    then show "map parse_level outline ! i = map Inr ?Ls ! i" using i by simp
  qed
  have run: "adjust_hierarchy outline = Inr ?out"
    unfolding adjust_hierarchy_def by (rule adjust_loop_spec [OF p])
  have Ls: "\<forall>L \<in> set ?Ls. L = 1 \<or> L = 2" by auto
  have lv: "nd_level n = Some ''H1'' \<or> nd_level n = Some ''H2''" if "n \<in> set ?out" for n
  proof -
    from that obtain pr where pr: "pr \<in> set (zip outline (spec_levels 0 ?Ls))"
      and n: "n = (fst pr)\<lparr>nd_level := Some (''H'' @ str_int (snd pr))\<rparr>"
      by (auto simp: case_prod_beta)
    from pr have "snd pr \<in> set (spec_levels 0 ?Ls)"
      by (metis prod.collapse set_zip_rightD)
    from spec_levels_12 [OF Ls _ this] have "snd pr = 1 \<or> snd pr = 2" by simp
    then show ?thesis unfolding n by (elim disjE) (simp_all add: str_int_def)
  qed
  have "length ?out = length outline" by (simp add: spec_levels_length)
  with run lv show ?thesis by blast
qed





lemma scan_blocks_levels:
  "\<forall>n \<in> set out. nd_level n = Some ''H1'' \<or> nd_level n = Some ''H2'' \<Longrightarrow>
   \<forall>n \<in> set (snd (scan_blocks th bs (t, out))). nd_level n = Some ''H1'' \<or> nd_level n = Some ''H2''"
proof (induction bs arbitrary: t out)
  case Nil
  then show ?case by simp
next
  case (Cons b bs)
  have ext: "\<forall>n \<in> set (out @ heading_nodes th b). nd_level n = Some ''H1'' \<or> nd_level n = Some ''H2''"
    using Cons.prems heading_nodes_levels by auto
  show ?case
    using Cons.IH [OF Cons.prems] Cons.IH [OF ext] by simp
qed

lemma extract_unfold:
  "collect_blocks doc = (blocks, sizes) \<Longrightarrow>
   scan_blocks (heading_thresh sizes) blocks (None, []) = (title, outline) \<Longrightarrow>
   adjust_hierarchy outline = Inr out \<Longrightarrow>
   extract_pdf_structure doc = Inr \<lparr>od_title = dict_get title '''', od_outline = out\<rparr>"
  by (simp add: extract_pdf_structure_def)




text \<open>
  C10. Every node of the outline that \<open>extract_pdf_structure\<close> returns is labelled
  \<open>H1\<close> or \<open>H2\<close>: the provisional assignment produces only these two labels, and
  \<open>adjust_hierarchy\<close> maps an outline labelled with them to one labelled with them
  (and never fails on it).
\<close>

theorem outline_levels_H1_H2:
  "(\<exists>r. extract_pdf_structure doc = Inr r
      \<and> (\<forall>n \<in> set (od_outline r). nd_level n = Some ''H1'' \<or> nd_level n = Some ''H2''))
   \<and> (\<forall>n \<in> set (heading_nodes thresh b). nd_level n = Some ''H1'' \<or> nd_level n = Some ''H2'')
   \<and> ((\<forall>n \<in> set outline. nd_level n = Some ''H1'' \<or> nd_level n = Some ''H2'') \<longrightarrow>
        (\<exists>out. adjust_hierarchy outline = Inr out \<and> length out = length outline
           \<and> (\<forall>n \<in> set out. nd_level n = Some ''H1'' \<or> nd_level n = Some ''H2'')))"
proof -
  obtain blocks sizes where cb: "collect_blocks doc = (blocks, sizes)"
    by (cases "collect_blocks doc")
  obtain title ol where sc: "scan_blocks (heading_thresh sizes) blocks (None, []) = (title, ol)"
    by (cases "scan_blocks (heading_thresh sizes) blocks (None, [])")
  have "\<forall>n \<in> set (snd (scan_blocks (heading_thresh sizes) blocks (None, []))).
          nd_level n = Some ''H1'' \<or> nd_level n = Some ''H2''"
    by (rule scan_blocks_levels) simp
  then have ol: "\<forall>n \<in> set ol. nd_level n = Some ''H1'' \<or> nd_level n = Some ''H2''"
    by (simp add: sc)
  from adjust_hierarchy_12 [OF ol] obtain out where
    out: "adjust_hierarchy ol = Inr out"
    and lv: "\<forall>n \<in> set out. nd_level n = Some ''H1'' \<or> nd_level n = Some ''H2''" by blast
  have a: "\<exists>r. extract_pdf_structure doc = Inr r
      \<and> (\<forall>n \<in> set (od_outline r). nd_level n = Some ''H1'' \<or> nd_level n = Some ''H2'')"
    using extract_unfold [OF cb sc out] lv by simp
  have b: "\<forall>n \<in> set (heading_nodes thresh b). nd_level n = Some ''H1'' \<or> nd_level n = Some ''H2''"
    using heading_nodes_levels by blast
  have c: "(\<forall>n \<in> set outline. nd_level n = Some ''H1'' \<or> nd_level n = Some ''H2'') \<longrightarrow>
        (\<exists>out. adjust_hierarchy outline = Inr out \<and> length out = length outline
           \<and> (\<forall>n \<in> set out. nd_level n = Some ''H1'' \<or> nd_level n = Some ''H2''))"
    using adjust_hierarchy_12 by blast
  from a b c show ?thesis by blast
qed

theorem outline_levels_H1_H2_witness:
  "(\<exists>r. extract_pdf_structure example_doc = Inr r
       \<and> map nd_level (od_outline r) = [Some ''H1'', Some ''H2''])
   \<and> (\<exists>out. adjust_hierarchy
          [\<lparr>nd_level = Some ''H2'', nd_text = ''A section'', nd_page = 0\<rparr>,
           \<lparr>nd_level = Some ''H2'', nd_text = ''Another'', nd_page = 1\<rparr>,
           \<lparr>nd_level = Some ''H1'', nd_text = ''Third'', nd_page = 1\<rparr>] = Inr out
        \<and> map nd_level out = [Some ''H1'', Some ''H2'', Some ''H1''])"
proof -
  let ?ol = "[\<lparr>nd_level = Some ''H2'', nd_text = ''A section'', nd_page = 0\<rparr>,
           \<lparr>nd_level = Some ''H2'', nd_text = ''Another'', nd_page = 1\<rparr>,
           \<lparr>nd_level = Some ''H1'', nd_text = ''Third'', nd_page = 1\<rparr>]"
  note t = outline_levels_H1_H2 [of example_doc 0 "\<lparr>ob_page = 0, ob_text = ''Overview'',
      ob_font_size = 16, ob_bold_ratio = 1, ob_italic_ratio = 0\<rparr>" ?ol]
  have hyp: "\<forall>n \<in> set ?ol. nd_level n = Some ''H1'' \<or> nd_level n = Some ''H2''" by simp
  from t [THEN conjunct2, THEN conjunct2, THEN mp, OF hyp]
  obtain out where o: "adjust_hierarchy ?ol = Inr out" by blast
  have e1: "adjust_hierarchy ?ol =
     Inr [\<lparr>nd_level = Some ''H1'', nd_text = ''A section'', nd_page = 0\<rparr>,
          \<lparr>nd_level = Some ''H2'', nd_text = ''Another'', nd_page = 1\<rparr>,
          \<lparr>nd_level = Some ''H1'', nd_text = ''Third'', nd_page = 1\<rparr>]"
    by code_simp
  from t [THEN conjunct1] obtain r where r: "extract_pdf_structure example_doc = Inr r" by blast
  have e2: "extract_pdf_structure example_doc =
     Inr \<lparr>od_title = ''Annual Report of the Example Company'',
          od_outline = [\<lparr>nd_level = Some ''H1'', nd_text = ''Overview'', nd_page = 0\<rparr>,
                        \<lparr>nd_level = Some ''H2'', nd_text = ''Scope and Goals'', nd_page = 0\<rparr>]\<rparr>"
    by code_simp
  from o r show ?thesis unfolding e1 e2 by auto
qed

section \<open>Properties of the Per-Block extractor\<close>

subsection \<open>Underline detection\<close>

lemma within_iff: "(\<bar>a - y1\<bar> < d) = (a > y1 - d \<and> a < y1 + d)" for a y1 d :: real
  by linarith

lemma underlines_alt:
  "underlines x0 x1 y1 font_size p =
     ((pr_height p < 1.0 \<and> pr_width p > 0)
      \<and> (pr_y0 p > y1 - of_int font_size * 0.2 \<and> pr_y0 p < y1 + of_int font_size * 0.2)
      \<and> max x0 (pr_x0 p) < min x1 (pr_x1 p))"
  unfolding underlines_def within_iff by simp

lemma underline_loop_Cons:
  "underline_loop x0 x1 y1 font_size (p # rest) =
     (underlines x0 x1 y1 font_size p \<or> underline_loop x0 x1 y1 font_size rest)"
  unfolding underlines_alt by (auto simp add: Let_def)

lemma underline_loop_iff:
  "underline_loop x0 x1 y1 font_size paths = (\<exists>p \<in> set paths. underlines x0 x1 y1 font_size p)"
proof (induction paths)
  case Nil
  show ?case by simp
next
  case (Cons p rest)
  show ?case unfolding underline_loop_Cons Cons.IH by simp
qed

lemma block_data_underline:
  "block_data page_num pg blocks i = Some r \<Longrightarrow>
   field ''is_underline'' r =
     Some (VBool (underline_loop (bx0 (blk_bbox (blocks ! i))) (bx1 (blk_bbox (blocks ! i)))
                    (by1 (blk_bbox (blocks ! i)))
                    (fst (snd (analyze_block_text_features (blocks ! i)))) (pg_drawings pg)))"
  by (auto simp: block_data_def Let_def field_def split: if_splits prod.splits)

text \<open>
  C4. In the Per-Block extractor the underline search over a page's drawing paths
  returns true exactly when some path is a horizontal line (height below 1.0 and
  width above 0) whose \<open>y0\<close> lies strictly within \<open>font_size * 0.2\<close> of the block's
  bottom edge \<open>y1\<close> and whose horizontal extent overlaps the block's; a matching path
  makes the result true whatever paths come before or after it, and without a match
  the result is false. The \<open>is_underline\<close> field of every emitted block is this
  result for the block's box, its dominant font size and the paths of its page.
\<close>

theorem underline_detection:
  "underline_loop x0 x1 y1 font_size paths = (\<exists>p \<in> set paths. underlines x0 x1 y1 font_size p)
   \<and> (underlines x0 x1 y1 font_size p \<longrightarrow>
        underline_loop x0 x1 y1 font_size (pre @ p # post) = True)
   \<and> (block_data page_num pg blocks i = Some r \<longrightarrow>
        field ''is_underline'' r =
          Some (VBool (\<exists>p \<in> set (pg_drawings pg).
                  underlines (bx0 (blk_bbox (blocks ! i))) (bx1 (blk_bbox (blocks ! i)))
                    (by1 (blk_bbox (blocks ! i)))
                    (fst (snd (analyze_block_text_features (blocks ! i)))) p)))"
proof -
  have a: "underline_loop x0 x1 y1 font_size paths = (\<exists>p \<in> set paths. underlines x0 x1 y1 font_size p)"
    by (rule underline_loop_iff)
  have b: "underlines x0 x1 y1 font_size p \<longrightarrow>
        underline_loop x0 x1 y1 font_size (pre @ p # post) = True"
    by (simp add: underline_loop_iff)
  have c: "block_data page_num pg blocks i = Some r \<longrightarrow>
        field ''is_underline'' r =
          Some (VBool (\<exists>p \<in> set (pg_drawings pg).
                  underlines (bx0 (blk_bbox (blocks ! i))) (bx1 (blk_bbox (blocks ! i)))
                    (by1 (blk_bbox (blocks ! i)))
                    (fst (snd (analyze_block_text_features (blocks ! i)))) p))"
    using block_data_underline [of page_num pg blocks i r] by (simp add: underline_loop_iff)
  from a b c show ?thesis by blast
qed

theorem underline_detection_witness:
  "column ''is_underline'' (page_rows 0 example_page) = [Some (VBool True), Some (VBool False)]
   \<and> underlines 72 300 136 16 \<lparr>pr_x0 = 72, pr_y0 = 136.5, pr_x1 = 200, pr_width = 128, pr_height = 0.5\<rparr>
   \<and> underline_loop 72 300 136 16 (pg_drawings example_page)"
proof -
  let ?p = "\<lparr>pr_x0 = 72, pr_y0 = 136.5, pr_x1 = 200, pr_width = 128, pr_height = 0.5\<rparr>"
  let ?pre = "[\<lparr>pr_x0 = 72, pr_y0 = 40, pr_x1 = 300, pr_width = 228, pr_height = 0.5\<rparr>,
         \<lparr>pr_x0 = 400, pr_y0 = 136.5, pr_x1 = 500, pr_width = 100, pr_height = 0.5\<rparr>]"
  let ?post = "[\<lparr>pr_x0 = 72, pr_y0 = 137, pr_x1 = 200, pr_width = 128, pr_height = 3\<rparr>]"
  have u: "underlines 72 300 136 16 ?p" by (simp add: underlines_def)
  have d: "pg_drawings example_page = ?pre @ ?p # ?post" by (simp add: example_page_def)
  from underline_detection [of 72 300 136 16 "[]" ?p ?pre ?post, THEN conjunct2, THEN conjunct1,
      THEN mp, OF u]
  have l: "underline_loop 72 300 136 16 (pg_drawings example_page)" unfolding d by simp
  have c: "column ''is_underline'' (page_rows 0 example_page) = [Some (VBool True), Some (VBool False)]"
    by code_simp
  from u l c show ?thesis by simp
qed

subsection \<open>Spacing and the command lines\<close>

lemma all_blocks_data_page:
  "r \<in> set (all_blocks_data doc) \<Longrightarrow> \<exists>page_num < length doc. r \<in> set (page_rows page_num (doc ! page_num))"
  by (auto simp: all_blocks_data_def in_set_enumerate_eq)

lemma page_rows_index:
  "r \<in> set (page_rows page_num pg) \<Longrightarrow>
   \<exists>i < length (sort_key (\<lambda>b. by0 (blk_bbox b)) (pg_blocks pg)).
     block_data page_num pg (sort_key (\<lambda>b. by0 (blk_bbox b)) (pg_blocks pg)) i = Some r"
  by (auto simp: page_rows_def Let_def List.map_filter_def)

lemma block_data_space_above:
  "block_data page_num pg blocks i = Some r \<Longrightarrow>
   field ''space_above'' r =
     Some (VFloat (Finite (py_round
        (by0 (blk_bbox (blocks ! i)) - (if i = 0 then 0 else by1 (blk_bbox (blocks ! (i - 1))))) 2)))"
  by (auto simp: block_data_def Let_def field_def split: if_splits prod.splits)

text \<open>
  C5, as amended. Every emitted row comes from an index \<open>i\<close> of the \<open>y0\<close>-sorted list
  of all blocks of its page, and its \<open>space_above\<close> is, rounded to 2 decimals, the
  block's \<open>y0\<close> minus the \<open>y1\<close> of the block at index \<open>i - 1\<close> of that list, or the
  block's \<open>y0\<close> itself when \<open>i = 0\<close>.
\<close>

theorem space_above_rule:
  "r \<in> set (all_blocks_data doc) \<longrightarrow>
   (\<exists>page_num i blocks.
      page_num < length doc
    \<and> blocks = sort_key (\<lambda>b. by0 (blk_bbox b)) (pg_blocks (doc ! page_num))
    \<and> sorted (map (\<lambda>b. by0 (blk_bbox b)) blocks)
    \<and> set blocks = set (pg_blocks (doc ! page_num))
    \<and> i < length blocks
    \<and> block_data page_num (doc ! page_num) blocks i = Some r
    \<and> field ''space_above'' r =
        Some (VFloat (Finite (py_round
          (by0 (blk_bbox (blocks ! i)) - (if i = 0 then 0 else by1 (blk_bbox (blocks ! (i - 1))))) 2))))"
proof
  assume "r \<in> set (all_blocks_data doc)"
  from all_blocks_data_page [OF this] obtain page_num where
    n: "page_num < length doc" and r: "r \<in> set (page_rows page_num (doc ! page_num))" by blast
  let ?blocks = "sort_key (\<lambda>b. by0 (blk_bbox b)) (pg_blocks (doc ! page_num))"
  from page_rows_index [OF r] obtain i where
    i: "i < length ?blocks" and bd: "block_data page_num (doc ! page_num) ?blocks i = Some r"
    by blast
  have s: "sorted (map (\<lambda>b. by0 (blk_bbox b)) ?blocks)" by (rule sorted_sort_key)
  have e: "set ?blocks = set (pg_blocks (doc ! page_num))" by simp
  from n i bd s e block_data_space_above [OF bd] show
    "\<exists>page_num i blocks.
      page_num < length doc
    \<and> blocks = sort_key (\<lambda>b. by0 (blk_bbox b)) (pg_blocks (doc ! page_num))
    \<and> sorted (map (\<lambda>b. by0 (blk_bbox b)) blocks)
    \<and> set blocks = set (pg_blocks (doc ! page_num))
    \<and> i < length blocks
    \<and> block_data page_num (doc ! page_num) blocks i = Some r
    \<and> field ''space_above'' r =
        Some (VFloat (Finite (py_round
          (by0 (blk_bbox (blocks ! i)) - (if i = 0 then 0 else by1 (blk_bbox (blocks ! (i - 1))))) 2)))"
    by blast
qed

text \<open>
  The first block of the example page has \<open>space_above = 72\<close>, its own \<open>y0\<close>, not 0;
  and on the page with fractional coordinates the second block's \<open>space_above\<close> is
  40.13, the rounded value of \<open>100.13 - 60.004 = 40.126\<close>.
\<close>

theorem space_above_first_block_counterexample:
  "column ''space_above'' (all_blocks_data example_doc) =
     [Some (VFloat (Finite 72)), Some (VFloat (Finite 28)), Some (VFloat (Finite 14)),
      Some (VFloat (Finite 10))]
   \<and> hd (column ''space_above'' (all_blocks_data example_doc)) \<noteq> Some (VFloat (Finite 0))
   \<and> hd (column ''y0'' (all_blocks_data example_doc)) = Some (VFloat (Finite 72))
   \<and> column ''space_above'' (page_rows 0 example_page_fraction) =
       [Some (VFloat (Finite 50)), Some (VFloat (Finite 40.13))]
   \<and> by0 (blk_bbox (pg_blocks example_page_fraction ! 1))
       - by1 (blk_bbox (pg_blocks example_page_fraction ! 0)) = 40.126"
  by code_simp

theorem space_above_rule_witness:
  "hd (all_blocks_data example_doc) \<in> set (all_blocks_data example_doc)
   \<and> (\<exists>page_num i blocks.
      page_num < length example_doc
    \<and> blocks = sort_key (\<lambda>b. by0 (blk_bbox b)) (pg_blocks (example_doc ! page_num))
    \<and> i < length blocks
    \<and> block_data page_num (example_doc ! page_num) blocks i = Some (hd (all_blocks_data example_doc))
    \<and> field ''space_above'' (hd (all_blocks_data example_doc)) =
        Some (VFloat (Finite (py_round
          (by0 (blk_bbox (blocks ! i)) - (if i = 0 then 0 else by1 (blk_bbox (blocks ! (i - 1))))) 2))))
   \<and> field ''space_above'' (hd (all_blocks_data example_doc)) = Some (VFloat (Finite 72))"
proof -
  have ne: "all_blocks_data example_doc \<noteq> []" by code_simp
  then have h: "hd (all_blocks_data example_doc) \<in> set (all_blocks_data example_doc)" by simp
  have v: "field ''space_above'' (hd (all_blocks_data example_doc)) = Some (VFloat (Finite 72))"
    by code_simp
  from space_above_rule [of "hd (all_blocks_data example_doc)" example_doc, THEN mp, OF h] h v
  show ?thesis by blast
qed

text \<open>
  C6, as amended. \<open>main.py\<close> prints its usage line and exits with code 1, without
  reaching \<open>process_pdf\<close>, whenever the argument vector does not have exactly 3
  entries (2 positional arguments). \<open>feature-extractor.py\<close> does so whenever the
  vector has fewer than 3 entries; with 3 or more it does not exit and runs
  \<open>extract_and_process_pdf\<close> on the first two positional arguments.
\<close>

theorem cli_argument_check:
  "(length argv \<noteq> 3 \<longrightarrow>
      main ev argv =
        \<lparr>cli_printed = [''Usage: python extract_pdf_features.py <input_pdf_path> <output_csv_path>''],
         cli_exit = Some 1, cli_makedirs = [], cli_run = None\<rparr>)
   \<and> (length argv < 3 \<longrightarrow>
      fx_main ev argv =
        \<lparr>cli_printed = [''Usage: python your_script_name.py <path_to_pdf_file> <output_csv_file>''],
         cli_exit = Some 1, cli_makedirs = [], cli_run = None\<rparr>)
   \<and> (3 \<le> length argv \<longrightarrow>
      cli_exit (fx_main ev argv) = None
      \<and> cli_run (fx_main ev argv) =
          Some (extract_and_process_pdf (fs_open_pdf ev (argv ! 1)) (fs_write_error ev (argv ! 2))
                  (argv ! 1) (argv ! 2)))"
  by (simp add: main_def fx_main_def Let_def)

text \<open>With three positional arguments \<open>feature-extractor.py\<close> runs and writes a CSV.\<close>

theorem cli_argument_check_counterexample:
  "int (length [''feature-extractor.py'', ''in.pdf'', ''out.csv'', ''extra'']) - 1 \<noteq> 2
   \<and> cli_exit (fx_main example_env [''feature-extractor.py'', ''in.pdf'', ''out.csv'', ''extra'']) = None
   \<and> cli_run (fx_main example_env [''feature-extractor.py'', ''in.pdf'', ''out.csv'', ''extra'']) =
       Some (extract_and_process_pdf (Inr example_doc) None ''in.pdf'' ''out.csv'')
   \<and> run_csv (extract_and_process_pdf (Inr example_doc) None ''in.pdf'' ''out.csv'') \<noteq> None"
proof -
  have a: "run_csv (extract_and_process_pdf (Inr example_doc) None ''in.pdf'' ''out.csv'') \<noteq> None"
    by code_simp
  have b: "fs_open_pdf example_env ''in.pdf'' = Inr example_doc"
    "fs_write_error example_env ''out.csv'' = None"
    by (simp_all add: example_env_def)
  show ?thesis using a b by (simp add: fx_main_def Let_def)
qed

theorem cli_argument_check_witness:
  "main example_env [''main.py'', ''in.pdf''] =
        \<lparr>cli_printed = [''Usage: python extract_pdf_features.py <input_pdf_path> <output_csv_path>''],
         cli_exit = Some 1, cli_makedirs = [], cli_run = None\<rparr>
   \<and> main example_env [''main.py'', ''in.pdf'', ''out.csv'', ''extra''] =
        \<lparr>cli_printed = [''Usage: python extract_pdf_features.py <input_pdf_path> <output_csv_path>''],
         cli_exit = Some 1, cli_makedirs = [], cli_run = None\<rparr>
   \<and> fx_main example_env [''feature-extractor.py'', ''in.pdf''] =
        \<lparr>cli_printed = [''Usage: python your_script_name.py <path_to_pdf_file> <output_csv_file>''],
         cli_exit = Some 1, cli_makedirs = [], cli_run = None\<rparr>
   \<and> cli_exit (fx_main example_env [''feature-extractor.py'', ''in.pdf'', ''out.csv'', ''extra'']) = None"
  using cli_argument_check [of "[''main.py'', ''in.pdf'']" example_env]
    cli_argument_check [of "[''main.py'', ''in.pdf'', ''out.csv'', ''extra'']" example_env]
    cli_argument_check [of "[''feature-extractor.py'', ''in.pdf'']" example_env]
    cli_argument_check [of "[''feature-extractor.py'', ''in.pdf'', ''out.csv'', ''extra'']" example_env]
  by simp

subsection \<open>Rows, the two passes and the written file\<close>

lemma block_data_keys: "block_data page_num pg blocks i = Some r \<Longrightarrow> map fst r = base_keys"
  by (auto simp: block_data_def Let_def base_keys_def split: if_splits prod.splits)

lemma block_data_features:
  "block_data page_num pg blocks i = Some r \<Longrightarrow> key \<in> set features_to_normalize \<Longrightarrow>
   feature_num key r \<noteq> None"
  by (auto simp: block_data_def Let_def feature_num_def features_to_normalize_def
      split: if_splits prod.splits)

lemma all_blocks_data_wf:
  assumes "r \<in> set (all_blocks_data doc)"
  shows "map fst r = base_keys" and "key \<in> set features_to_normalize \<Longrightarrow> feature_num key r \<noteq> None"
proof -
  from all_blocks_data_page [OF assms] obtain n where "r \<in> set (page_rows n (doc ! n))" by blast
  from page_rows_index [OF this] obtain i blocks where bd: "block_data n (doc ! n) blocks i = Some r"
    by blast
  show "map fst r = base_keys" by (rule block_data_keys [OF bd])
  show "key \<in> set features_to_normalize \<Longrightarrow> feature_num key r \<noteq> None"
    by (rule block_data_features [OF bd])
qed

lemma feature_num_SomeD:
  "feature_num key r = Some x \<Longrightarrow> \<exists>v. map_of r key = Some v \<and> num v = Inr (Finite x)"
  by (auto simp: feature_num_def split: option.splits sum.splits pyfloat.splits)

lemma features_distinct: "distinct features_to_normalize"
  by (simp add: features_to_normalize_def)

text \<open>One block's contribution to the running minimum and maximum of a feature.\<close>

lemma min_max_keys_conv:
  assumes "\<forall>key \<in> set keys. feature_num key r \<noteq> None \<and> map_of mm key \<noteq> None" "distinct keys"
  shows "\<exists>mm'. min_max_keys r keys mm = Inr mm' \<and> map fst mm' = map fst mm
     \<and> (\<forall>key. map_of mm' key =
          (if key \<in> set keys
           then map_option (\<lambda>(a, b). (py_min a (Finite (dict_get (feature_num key r) 0)),
                                       py_max b (Finite (dict_get (feature_num key r) 0))))
                  (map_of mm key)
           else map_of mm key))"
  using assms
proof (induction keys arbitrary: mm)
  case Nil
  then show ?case by simp
next
  case (Cons k keys)
  from Cons.prems obtain x a b where x: "feature_num k r = Some x" and ab: "map_of mm k = Some (a, b)"
    by fastforce
  from feature_num_SomeD [OF x] obtain v where v: "map_of r k = Some v" "num v = Inr (Finite x)"
    by blast
  let ?mm1 = "AList.update k (py_min a (Finite x), py_max b (Finite x)) mm"
  have step: "min_max_keys r (k # keys) mm = min_max_keys r keys ?mm1"
    using ab v by simp
  have look: "map_of ?mm1 key = (if key = k then Some (py_min a (Finite x), py_max b (Finite x))
                                 else map_of mm key)" for key
    by (simp add: update_conv')
  from map_of_SomeD [OF ab] have kin: "k \<in> fst ` set mm" by force
  have keys1: "map fst ?mm1 = map fst mm" using kin by (simp add: update_keys)
  have pre: "\<forall>key \<in> set keys. feature_num key r \<noteq> None \<and> map_of ?mm1 key \<noteq> None"
    using Cons.prems(1) look by auto
  from Cons.prems(2) have d: "distinct keys" and kn: "k \<notin> set keys" by auto
  from Cons.IH [OF pre d] obtain mm' where
    r: "min_max_keys r keys ?mm1 = Inr mm'" and f: "map fst mm' = map fst ?mm1"
    and l: "\<forall>key. map_of mm' key =
          (if key \<in> set keys
           then map_option (\<lambda>(a, b). (py_min a (Finite (dict_get (feature_num key r) 0)),
                                       py_max b (Finite (dict_get (feature_num key r) 0))))
                  (map_of ?mm1 key)
           else map_of ?mm1 key)" by blast
  have "\<forall>key. map_of mm' key =
          (if key \<in> set (k # keys)
           then map_option (\<lambda>(a, b). (py_min a (Finite (dict_get (feature_num key r) 0)),
                                       py_max b (Finite (dict_get (feature_num key r) 0))))
                  (map_of mm key)
           else map_of mm key)"
    using l look kn x ab by (auto simp: dict_get_def)
  with r f keys1 step show ?case by simp
qed

text \<open>The running pair of a feature after a list of rows.\<close>

lemma min_max_blocks_conv:
  assumes "\<forall>r \<in> set rows. \<forall>key \<in> set features_to_normalize. feature_num key r \<noteq> None"
    and "\<forall>key \<in> set features_to_normalize. map_of mm key \<noteq> None"
  shows "\<exists>mm'. min_max_blocks rows mm = Inr mm' \<and> map fst mm' = map fst mm
     \<and> (\<forall>key \<in> set features_to_normalize.
          map_of mm' key =
            map_option
              (fold (\<lambda>r (a, b). (py_min a (Finite (dict_get (feature_num key r) 0)),
                                  py_max b (Finite (dict_get (feature_num key r) 0)))) rows)
              (map_of mm key))"
  using assms
proof (induction rows arbitrary: mm)
  case Nil
  then show ?case by (simp add: option.map_ident)
next
  case (Cons r rows)
  have pre: "\<forall>key \<in> set features_to_normalize. feature_num key r \<noteq> None \<and> map_of mm key \<noteq> None"
    using Cons.prems by simp
  from min_max_keys_conv [OF pre features_distinct] obtain mm1 where
    s: "min_max_keys r features_to_normalize mm = Inr mm1" and f1: "map fst mm1 = map fst mm"
    and l1: "\<forall>key. map_of mm1 key =
          (if key \<in> set features_to_normalize
           then map_option (\<lambda>(a, b). (py_min a (Finite (dict_get (feature_num key r) 0)),
                                       py_max b (Finite (dict_get (feature_num key r) 0))))
                  (map_of mm key)
           else map_of mm key)" by blast
  have p1: "\<forall>r \<in> set rows. \<forall>key \<in> set features_to_normalize. feature_num key r \<noteq> None"
    using Cons.prems(1) by simp
  have p2: "\<forall>key \<in> set features_to_normalize. map_of mm1 key \<noteq> None"
    using l1 Cons.prems(2) by simp
  from Cons.IH [OF p1 p2] obtain mm' where
    b: "min_max_blocks rows mm1 = Inr mm'" and f2: "map fst mm' = map fst mm1"
    and l2: "\<forall>key \<in> set features_to_normalize.
          map_of mm' key =
            map_option
              (fold (\<lambda>r (a, b). (py_min a (Finite (dict_get (feature_num key r) 0)),
                                  py_max b (Finite (dict_get (feature_num key r) 0)))) rows)
              (map_of mm1 key)" by blast
  have "map_of mm' key =
            map_option
              (fold (\<lambda>r (a, b). (py_min a (Finite (dict_get (feature_num key r) 0)),
                                  py_max b (Finite (dict_get (feature_num key r) 0)))) (r # rows))
              (map_of mm key)" if k: "key \<in> set features_to_normalize" for key
  proof -
    from Cons.prems(2) k obtain ab where ab: "map_of mm key = Some ab" by auto
    from l1 k ab have "map_of mm1 key =
       Some ((\<lambda>(a, b). (py_min a (Finite (dict_get (feature_num key r) 0)),
                          py_max b (Finite (dict_get (feature_num key r) 0)))) ab)" by simp
    with l2 k ab show ?thesis by simp
  qed
  then have kf: "\<forall>key \<in> set features_to_normalize. map_of mm' key =
            map_option
              (fold (\<lambda>r (a, b). (py_min a (Finite (dict_get (feature_num key r) 0)),
                                  py_max b (Finite (dict_get (feature_num key r) 0)))) (r # rows))
              (map_of mm key)" by blast
  have run: "min_max_blocks (r # rows) mm = Inr mm'" using s b by simp
  have keys: "map fst mm' = map fst mm" using f1 f2 by simp
  from run keys kf show ?case by blast
qed

lemma fold_pair_finite:
  "fold (\<lambda>r (a, b). (py_min a (Finite (f r)), py_max b (Finite (f r)))) rows (Finite a, Finite b) =
     (Finite (fold min (map f rows) a), Finite (fold max (map f rows) b))"
proof (induction rows arbitrary: a b)
  case Nil
  show ?case by simp
next
  case (Cons r rows)
  have "py_min (Finite a) (Finite (f r)) = Finite (min (f r) a)"
    by (simp add: py_min_def min_def)
  moreover have "py_max (Finite b) (Finite (f r)) = Finite (max (f r) b)"
    by (simp add: py_max_def max_def)
  ultimately show ?case using Cons.IH by simp
qed

lemma fold_pair_init:
  assumes "rows \<noteq> []"
  shows "fold (\<lambda>r (a, b). (py_min a (Finite (f r)), py_max b (Finite (f r)))) rows (PosInf, NegInf) =
     (Finite (Min (set (map f rows))), Finite (Max (set (map f rows))))"
proof -
  from assms obtain r rs where rows: "rows = r # rs" by (cases rows) auto
  have "fold (\<lambda>r (a, b). (py_min a (Finite (f r)), py_max b (Finite (f r)))) rows (PosInf, NegInf)
      = fold (\<lambda>r (a, b). (py_min a (Finite (f r)), py_max b (Finite (f r)))) rs (Finite (f r), Finite (f r))"
    unfolding rows by (simp add: py_min_def py_max_def)
  also have "\<dots> = (Finite (fold min (map f rs) (f r)), Finite (fold max (map f rs) (f r)))"
    by (rule fold_pair_finite)
  also have "fold min (map f rs) (f r) = Min (set (map f rows))"
    unfolding rows using Min.set_eq_fold [of "f r" "map f rs"] by simp
  also have "fold max (map f rs) (f r) = Max (set (map f rows))"
    unfolding rows using Max.set_eq_fold [of "f r" "map f rs"] by simp
  finally show ?thesis .
qed

lemma min_max_init_lookup:
  "key \<in> set features_to_normalize \<Longrightarrow> map_of min_max_init key = Some (PosInf, NegInf)"
  by (auto simp: min_max_init_def features_to_normalize_def)

lemma min_max_blocks_all:
  assumes "rows = all_blocks_data doc" "rows \<noteq> []"
  shows "\<exists>mm. min_max_blocks rows min_max_init = Inr mm
     \<and> (\<forall>key \<in> set features_to_normalize.
          map_of mm key = Some (Finite (Min (set (feature_values key rows))),
                                Finite (Max (set (feature_values key rows)))))"
proof -
  have p1: "\<forall>r \<in> set rows. \<forall>key \<in> set features_to_normalize. feature_num key r \<noteq> None"
    using all_blocks_data_wf(2) assms(1) by blast
  have p2: "\<forall>key \<in> set features_to_normalize. map_of min_max_init key \<noteq> None"
    by (simp add: min_max_init_lookup)
  from min_max_blocks_conv [OF p1 p2] obtain mm where
    b: "min_max_blocks rows min_max_init = Inr mm"
    and l: "\<forall>key \<in> set features_to_normalize.
          map_of mm key =
            map_option
              (fold (\<lambda>r (a, b). (py_min a (Finite (dict_get (feature_num key r) 0)),
                                  py_max b (Finite (dict_get (feature_num key r) 0)))) rows)
              (map_of min_max_init key)" by blast
  have "\<forall>key \<in> set features_to_normalize.
          map_of mm key = Some (Finite (Min (set (feature_values key rows))),
                                Finite (Max (set (feature_values key rows))))"
    using l fold_pair_init [OF assms(2)] by (simp add: min_max_init_lookup feature_values_def)
  with b show ?thesis by blast
qed

lemma norm_keys_step:
  assumes "map_of mm k = Some (Finite a, Finite b)" "feature_num k r = Some x"
  shows "norm_keys mm (k # keys) r =
     norm_keys mm keys
       (AList.update (''norm_'' @ k) (VFloat (Finite (py_round (normalize_value x a b) 4))) r)"
proof -
  from feature_num_SomeD [OF assms(2)] obtain v where v: "map_of r k = Some v" "num v = Inr (Finite x)"
    by blast
  show ?thesis
  proof (cases "b = a")
    case True
    then show ?thesis using assms(1) by (simp add: normalize_value_def)
  next
    case False
    then show ?thesis using assms(1) v by (simp add: normalize_value_def Let_def)
  qed
qed

lemma feature_num_update:
  "k' \<noteq> key \<Longrightarrow> feature_num key (AList.update k' v r) = feature_num key r"
  by (simp add: feature_num_def update_conv')

lemma norm_keys_conv:
  assumes "\<forall>key \<in> set keys. \<exists>a b. map_of mm key = Some (Finite a, Finite b)"
    and "\<forall>key \<in> set keys. feature_num key r \<noteq> None"
    and "distinct keys"
    and "\<forall>key \<in> set keys. ''norm_'' @ key \<notin> set (map fst r)"
    and "\<forall>key \<in> set keys. \<forall>key' \<in> set keys. ''norm_'' @ key \<noteq> key'"
  shows "\<exists>r'. norm_keys mm keys r = Inr r'
     \<and> map fst r' = map fst r @ map (\<lambda>key. ''norm_'' @ key) keys
     \<and> (\<forall>key \<in> set keys. \<forall>a b x.
           map_of mm key = Some (Finite a, Finite b) \<longrightarrow> feature_num key r = Some x \<longrightarrow>
           map_of r' (''norm_'' @ key) = Some (VFloat (Finite (py_round (normalize_value x a b) 4))))
     \<and> (\<forall>k \<in> set (map fst r). map_of r' k = map_of r k)"
  using assms
proof (induction keys arbitrary: r)
  case Nil
  then show ?case by simp
next
  case (Cons k keys)
  from Cons.prems(1,2) obtain a b x where ab: "map_of mm k = Some (Finite a, Finite b)"
    and x: "feature_num k r = Some x" by fastforce
  let ?v = "VFloat (Finite (py_round (normalize_value x a b) 4))"
  let ?r1 = "AList.update (''norm_'' @ k) ?v r"
  have step: "norm_keys mm (k # keys) r = norm_keys mm keys ?r1"
    by (rule norm_keys_step [OF ab x])
  have fresh: "''norm_'' @ k \<notin> set (map fst r)" using Cons.prems(4) by simp
  then have keys1: "map fst ?r1 = map fst r @ [''norm_'' @ k]" by (simp add: update_keys)
  have look1: "map_of ?r1 k' = (if k' = ''norm_'' @ k then Some ?v else map_of r k')" for k'
    by (simp add: update_conv')
  from Cons.prems(3) have d: "distinct keys" and kn: "k \<notin> set keys" by auto
  have fn: "feature_num key ?r1 = feature_num key r" if "key \<in> set (k # keys)" for key
    using that Cons.prems(5) by (intro feature_num_update) auto
  have p1: "\<forall>key \<in> set keys. \<exists>a b. map_of mm key = Some (Finite a, Finite b)"
    using Cons.prems(1) by simp
  have p2: "\<forall>key \<in> set keys. feature_num key ?r1 \<noteq> None"
    using Cons.prems(2) fn by simp
  have p4: "\<forall>key \<in> set keys. ''norm_'' @ key \<notin> set (map fst ?r1)"
    using Cons.prems(4) kn unfolding keys1 by auto
  have p5: "\<forall>key \<in> set keys. \<forall>key' \<in> set keys. ''norm_'' @ key \<noteq> key'"
    using Cons.prems(5) by simp
  from Cons.IH [OF p1 p2 d p4 p5] obtain r' where
    run: "norm_keys mm keys ?r1 = Inr r'"
    and ks: "map fst r' = map fst ?r1 @ map (\<lambda>key. ''norm_'' @ key) keys"
    and vals: "\<forall>key \<in> set keys. \<forall>a b x.
           map_of mm key = Some (Finite a, Finite b) \<longrightarrow> feature_num key ?r1 = Some x \<longrightarrow>
           map_of r' (''norm_'' @ key) = Some (VFloat (Finite (py_round (normalize_value x a b) 4)))"
    and old: "\<forall>k' \<in> set (map fst ?r1). map_of r' k' = map_of ?r1 k'" by blast
  have c1: "norm_keys mm (k # keys) r = Inr r'" using step run by simp
  have c2: "map fst r' = map fst r @ map (\<lambda>key. ''norm_'' @ key) (k # keys)"
    using ks keys1 by simp
  have c3: "map_of r' (''norm_'' @ key) = Some (VFloat (Finite (py_round (normalize_value x' a' b') 4)))"
    if "key \<in> set (k # keys)" "map_of mm key = Some (Finite a', Finite b')" "feature_num key r = Some x'"
    for key a' b' x'
  proof (cases "key = k")
    case True
    have "''norm_'' @ k \<in> set (map fst ?r1)" unfolding keys1 by simp
    from old [rule_format, OF this]
    have "map_of r' (''norm_'' @ k) = map_of ?r1 (''norm_'' @ k)" .
    then show ?thesis using True that ab x look1 by simp
  next
    case False
    then have "key \<in> set keys" using that(1) by simp
    then show ?thesis using vals that(2,3) fn [OF that(1)] by simp
  qed
  have c4: "map_of r' k' = map_of r k'" if "k' \<in> set (map fst r)" for k'
  proof -
    have "k' \<noteq> ''norm_'' @ k" using that fresh by blast
    moreover have "k' \<in> set (map fst ?r1)" unfolding keys1 using that by simp
    from old [rule_format, OF this] have "map_of r' k' = map_of ?r1 k'" .
    ultimately show ?thesis using look1 by simp
  qed
  from c1 c2 c3 c4 show ?case by blast
qed

lemma norm_blocks_all2:
  "\<forall>r \<in> set rows. \<exists>r'. norm_keys mm features_to_normalize r = Inr r' \<Longrightarrow>
   \<exists>rows'. norm_blocks mm rows = Inr rows'
     \<and> list_all2 (\<lambda>r r'. norm_keys mm features_to_normalize r = Inr r') rows rows'"
proof (induction rows)
  case Nil
  then show ?case by simp
next
  case (Cons r rows)
  from Cons.prems obtain r' where r': "norm_keys mm features_to_normalize r = Inr r'" by auto
  from Cons.IH Cons.prems obtain rows' where
    "norm_blocks mm rows = Inr rows'"
    "list_all2 (\<lambda>r r'. norm_keys mm features_to_normalize r = Inr r') rows rows'" by auto
  with r' show ?case by simp
qed

lemma writerows_ok:
  "\<forall>r \<in> set rows. set (map fst r) \<subseteq> set fieldnames \<Longrightarrow>
   writerows fieldnames rows =
     (map (\<lambda>r. map (\<lambda>k. dict_get (map_of r k) (VStr [])) fieldnames) rows, None)"
  by (induction rows) (auto simp: dict_to_list_def)

lemma norm_fresh:
  "key \<in> set features_to_normalize \<Longrightarrow> ''norm_'' @ key \<notin> set base_keys"
  by (auto simp: features_to_normalize_def base_keys_def)

lemma norm_sep:
  "key \<in> set features_to_normalize \<Longrightarrow> key' \<in> set features_to_normalize \<Longrightarrow> ''norm_'' @ key \<noteq> key'"
  by (auto simp: features_to_normalize_def)

text \<open>What the two passes make of the rows of a document that has some.\<close>

lemma normed_rows:
  assumes rows: "rows = all_blocks_data doc" and ne: "rows \<noteq> []"
  shows "\<exists>mm rows'. min_max_blocks rows min_max_init = Inr mm \<and> norm_blocks mm rows = Inr rows'
     \<and> length rows' = length rows
     \<and> (\<forall>i < length rows.
           map fst (rows' ! i) = base_keys @ norm_keys_added
         \<and> (\<forall>k \<in> set base_keys. map_of (rows' ! i) k = map_of (rows ! i) k)
         \<and> (\<forall>key \<in> set features_to_normalize.
               map_of (rows' ! i) (''norm_'' @ key) =
                 Some (VFloat (Finite (py_round
                   (normalize_value (dict_get (feature_num key (rows ! i)) 0)
                      (Min (set (feature_values key rows))) (Max (set (feature_values key rows)))) 4)))))"
proof -
  from min_max_blocks_all [OF rows ne] obtain mm where
    mm: "min_max_blocks rows min_max_init = Inr mm"
    and mmv: "\<forall>key \<in> set features_to_normalize.
          map_of mm key = Some (Finite (Min (set (feature_values key rows))),
                                Finite (Max (set (feature_values key rows))))" by blast
  have conv: "\<exists>r'. norm_keys mm features_to_normalize r = Inr r'
     \<and> map fst r' = map fst r @ map (\<lambda>key. ''norm_'' @ key) features_to_normalize
     \<and> (\<forall>key \<in> set features_to_normalize. \<forall>a b x.
           map_of mm key = Some (Finite a, Finite b) \<longrightarrow> feature_num key r = Some x \<longrightarrow>
           map_of r' (''norm_'' @ key) = Some (VFloat (Finite (py_round (normalize_value x a b) 4))))
     \<and> (\<forall>k \<in> set (map fst r). map_of r' k = map_of r k)" if r: "r \<in> set rows" for r
  proof (rule norm_keys_conv)
    show "\<forall>key \<in> set features_to_normalize. \<exists>a b. map_of mm key = Some (Finite a, Finite b)"
      using mmv by blast
    show "\<forall>key \<in> set features_to_normalize. feature_num key r \<noteq> None"
      using all_blocks_data_wf(2) r rows by blast
    show "distinct features_to_normalize" by (rule features_distinct)
    show "\<forall>key \<in> set features_to_normalize. ''norm_'' @ key \<notin> set (map fst r)"
      using all_blocks_data_wf(1) [of r doc] r rows norm_fresh by simp
    show "\<forall>key \<in> set features_to_normalize. \<forall>key' \<in> set features_to_normalize. ''norm_'' @ key \<noteq> key'"
      using norm_sep by blast
  qed
  then have "\<forall>r \<in> set rows. \<exists>r'. norm_keys mm features_to_normalize r = Inr r'" by blast
  from norm_blocks_all2 [OF this] obtain rows' where
    nb: "norm_blocks mm rows = Inr rows'"
    and all2: "list_all2 (\<lambda>r r'. norm_keys mm features_to_normalize r = Inr r') rows rows'" by blast
  have len: "length rows' = length rows" using all2 by (simp add: list_all2_lengthD)
  have pt: "map fst (rows' ! i) = base_keys @ norm_keys_added
         \<and> (\<forall>k \<in> set base_keys. map_of (rows' ! i) k = map_of (rows ! i) k)
         \<and> (\<forall>key \<in> set features_to_normalize.
               map_of (rows' ! i) (''norm_'' @ key) =
                 Some (VFloat (Finite (py_round
                   (normalize_value (dict_get (feature_num key (rows ! i)) 0)
                      (Min (set (feature_values key rows))) (Max (set (feature_values key rows)))) 4))))"
    if i: "i < length rows" for i
  proof -
    have ri: "rows ! i \<in> set rows" using i by simp
    have bk: "map fst (rows ! i) = base_keys" using all_blocks_data_wf(1) ri rows by blast
    have nk: "norm_keys mm features_to_normalize (rows ! i) = Inr (rows' ! i)"
      using list_all2_nthD [OF all2 i] .
    from conv [OF ri] nk have
      k: "map fst (rows' ! i) = map fst (rows ! i) @ map (\<lambda>key. ''norm_'' @ key) features_to_normalize"
      and v: "\<forall>key \<in> set features_to_normalize. \<forall>a b x.
           map_of mm key = Some (Finite a, Finite b) \<longrightarrow> feature_num key (rows ! i) = Some x \<longrightarrow>
           map_of (rows' ! i) (''norm_'' @ key) = Some (VFloat (Finite (py_round (normalize_value x a b) 4)))"
      and o: "\<forall>k \<in> set (map fst (rows ! i)). map_of (rows' ! i) k = map_of (rows ! i) k"
      by auto
    have a: "map fst (rows' ! i) = base_keys @ norm_keys_added"
      using k bk by (simp add: norm_keys_added_def)
    have b: "\<forall>k \<in> set base_keys. map_of (rows' ! i) k = map_of (rows ! i) k"
      using o bk by simp
    have c: "map_of (rows' ! i) (''norm_'' @ key) =
                 Some (VFloat (Finite (py_round
                   (normalize_value (dict_get (feature_num key (rows ! i)) 0)
                      (Min (set (feature_values key rows))) (Max (set (feature_values key rows)))) 4)))"
      if key: "key \<in> set features_to_normalize" for key
    proof -
      from all_blocks_data_wf(2) [of "rows ! i" doc key] ri rows key
      obtain x where x: "feature_num key (rows ! i) = Some x" by auto
      from v [rule_format, OF key mmv [rule_format, OF key] x] x
      show ?thesis by (simp add: dict_get_def)
    qed
    from a b c show ?thesis by blast
  qed
  from mm nb len pt show ?thesis by blast
qed

lemma process_pdf_written:
  assumes mm: "min_max_blocks (all_blocks_data doc) min_max_init = Inr mm"
    and nb: "norm_blocks mm (all_blocks_data doc) = Inr rows'"
    and ne: "all_blocks_data doc \<noteq> []"
    and len: "length rows' = length (all_blocks_data doc)"
    and keys: "\<forall>i < length rows'. map fst (rows' ! i) = base_keys @ norm_keys_added"
  shows "process_pdf (Inr doc) None inp out =
     \<lparr>run_printed =
        [''Processing '' @ str_nat (length doc) @ '' pages in '' @ quoted (basename inp) @ ''...'',
         ''Writing '' @ str_nat (length rows') @ '' text blocks to '' @ quoted out @ ''...'',
         ''Successfully created the CSV file.''],
      run_csv = Some (base_keys @ norm_keys_added, cells_of rows'),
      run_raised = None\<rparr>"
    and "process_pdf (Inr doc) (Some e) inp out =
     \<lparr>run_printed =
        [''Processing '' @ str_nat (length doc) @ '' pages in '' @ quoted (basename inp) @ ''...'',
         ''Writing '' @ str_nat (length rows') @ '' text blocks to '' @ quoted out @ ''...'',
         ''Error: Could not write to CSV file '' @ quoted out @ ''.'',
         ''Reason: '' @ failure_message e],
      run_csv = None, run_raised = None\<rparr>"
proof -
  from ne len obtain first rest where fr: "rows' = first # rest" by (cases rows') auto
  have kall: "\<forall>r \<in> set rows'. map fst r = base_keys @ norm_keys_added"
    using keys by (metis in_set_conv_nth)
  then have kf: "map fst first = base_keys @ norm_keys_added" using fr by simp
  have "\<forall>r \<in> set rows'. set (map fst r) \<subseteq> set (base_keys @ norm_keys_added)"
    using kall by simp
  from writerows_ok [OF this]
  have w: "writerows (base_keys @ norm_keys_added) (first # rest) = (cells_of (first # rest), None)"
    unfolding fr cells_of_def .
  show "process_pdf (Inr doc) None inp out =
     \<lparr>run_printed =
        [''Processing '' @ str_nat (length doc) @ '' pages in '' @ quoted (basename inp) @ ''...'',
         ''Writing '' @ str_nat (length rows') @ '' text blocks to '' @ quoted out @ ''...'',
         ''Successfully created the CSV file.''],
      run_csv = Some (base_keys @ norm_keys_added, cells_of rows'),
      run_raised = None\<rparr>"
    unfolding process_pdf_def using mm nb ne kf w by (simp add: fr Let_def)
  show "process_pdf (Inr doc) (Some e) inp out =
     \<lparr>run_printed =
        [''Processing '' @ str_nat (length doc) @ '' pages in '' @ quoted (basename inp) @ ''...'',
         ''Writing '' @ str_nat (length rows') @ '' text blocks to '' @ quoted out @ ''...'',
         ''Error: Could not write to CSV file '' @ quoted out @ ''.'',
         ''Reason: '' @ failure_message e],
      run_csv = None, run_raised = None\<rparr>"
    unfolding process_pdf_def using mm nb ne by (simp add: Let_def)
qed

lemma process_pdf_empty:
  "all_blocks_data doc = [] \<Longrightarrow>
   process_pdf (Inr doc) we inp out =
     \<lparr>run_printed =
        [''Processing '' @ str_nat (length doc) @ '' pages in '' @ quoted (basename inp) @ ''...'',
         ''Warning: No text blocks were extracted from the PDF.''],
      run_csv = None, run_raised = None\<rparr>"
  by (simp add: process_pdf_def Let_def)

lemma process_pdf_unopened:
  "process_pdf (Inl e) we inp out =
     \<lparr>run_printed = [''Error: Could not open or process PDF file '' @ quoted inp @ ''.'',
                     ''Reason: '' @ failure_message e],
      run_csv = None, run_raised = None\<rparr>"
  by (simp add: process_pdf_def)

subsection \<open>Documents without text\<close>

lemma str_strip_Nil_iff: "(str_strip s = []) = (\<forall>c \<in> set s. isspace c)"
proof
  assume "str_strip s = []"
  then have "dropWhile isspace (rev (dropWhile isspace s)) = []" by (simp add: str_strip_def)
  then have a: "\<forall>c \<in> set (dropWhile isspace s). isspace c" by (simp add: dropWhile_eq_Nil_conv)
  have "dropWhile isspace s = []"
  proof (rule ccontr)
    assume n: "dropWhile isspace s \<noteq> []"
    then have "\<not> isspace (hd (dropWhile isspace s))" by (rule hd_dropWhile)
    moreover have "hd (dropWhile isspace s) \<in> set (dropWhile isspace s)" using n by simp
    ultimately show False using a by blast
  qed
  then show "\<forall>c \<in> set s. isspace c" by (simp add: dropWhile_eq_Nil_conv)
next
  assume "\<forall>c \<in> set s. isspace c"
  then have d: "dropWhile isspace s = []" by (simp add: dropWhile_eq_Nil_conv)
  show "str_strip s = []" unfolding str_strip_def d by simp
qed

lemma isspace_blank: "isspace CHR '' ''"
  by (simp add: isspace_def between_def cp_def)

lemma blank_full_text:
  assumes "\<forall>sp \<in> set spans. str_strip (dict_get (sp_text sp) '''') = []"
  shows "str_strip (concat (map (\<lambda>s. dict_get (sp_text s) '''' @ '' '') spans)) = []"
  using assms isspace_blank by (auto simp: str_strip_Nil_iff)

lemma str_strip_Nil: "str_strip [] = []"
  by (simp add: str_strip_def)

lemma block_data_blank:
  assumes "blk_type (blocks ! i) = 0 \<longrightarrow>
     (\<forall>sp \<in> set (block_spans (blocks ! i)). str_strip (dict_get (sp_text sp) '''') = [])"
  shows "block_data page_num pg blocks i = None"
proof (cases "blk_type (blocks ! i) = 0")
  case False
  then show ?thesis by (simp add: block_data_def)
next
  case True
  with assms have "str_strip (concat (map (\<lambda>s. dict_get (sp_text s) '''' @ '' '')
      (block_spans (blocks ! i)))) = []" by (simp add: blank_full_text)
  then show ?thesis
    by (simp add: block_data_def analyze_block_text_features_def Let_def str_strip_Nil)
qed

lemma map_filter_None: "\<forall>x \<in> set xs. f x = None \<Longrightarrow> List.map_filter f xs = []"
  by (simp add: List.map_filter_def filter_empty_conv)

lemma page_rows_blank:
  assumes "\<forall>blk \<in> set (pg_blocks pg). blk_type blk = 0 \<longrightarrow>
     (\<forall>sp \<in> set (block_spans blk). str_strip (dict_get (sp_text sp) '''') = [])"
  shows "page_rows page_num pg = []"
proof -
  let ?blocks = "sort_key (\<lambda>b. by0 (blk_bbox b)) (pg_blocks pg)"
  have "block_data page_num pg ?blocks i = None" if "i < length ?blocks" for i
  proof (rule block_data_blank)
    have "?blocks ! i \<in> set ?blocks" using that by (rule nth_mem)
    then have "?blocks ! i \<in> set (pg_blocks pg)" by simp
    with assms show "blk_type (?blocks ! i) = 0 \<longrightarrow>
     (\<forall>sp \<in> set (block_spans (?blocks ! i)). str_strip (dict_get (sp_text sp) '''') = [])"
      by blast
  qed
  then show ?thesis by (simp add: page_rows_def Let_def map_filter_None)
qed

lemma no_text_all_blocks_data: "no_text doc \<Longrightarrow> all_blocks_data doc = []"
proof -
  assume nt: "no_text doc"
  have "page_rows n pg = []" if "pg \<in> set doc" for n pg
    using nt that by (intro page_rows_blank) (auto simp: no_text_def)
  then show ?thesis
    by (auto simp: all_blocks_data_def in_set_enumerate_eq)
qed

lemma max_first_in: "max_first key best xs \<in> set (best # xs)"
  by (induction xs arbitrary: best) (auto split: if_splits)

lemma longest_span_in: "spans \<noteq> [] \<Longrightarrow> longest_span spans \<in> set spans"
  using max_first_in [of _ "hd spans" "tl spans"] by (cases spans) (auto simp: longest_span_def)

lemma merge_line_blank:
  assumes "\<forall>sp \<in> set (dict_get (ln_spans lin) []). str_strip (dict_get (sp_text sp) '''') = []"
  shows "merge_line lin st = st"
proof (cases "dict_get (ln_spans lin) [] = []")
  case True
  then show ?thesis by (simp add: merge_line_def)
next
  case False
  from longest_span_in [OF this] assms
  have "str_strip (dict_get (sp_text (longest_span (dict_get (ln_spans lin) []))) '''') = []" by blast
  then show ?thesis by (simp add: merge_line_def Let_def)
qed

lemma fold_id: "\<forall>x \<in> set xs. f x st = st \<Longrightarrow> fold f xs st = st"
  by (induction xs) simp_all

lemma merge_block_blank:
  assumes "blk_type blk = 0 \<longrightarrow>
     (\<forall>sp \<in> set (block_spans blk). str_strip (dict_get (sp_text sp) '''') = [])"
  shows "merge_block blk st = st"
proof (cases "blk_type blk = 0")
  case False
  then show ?thesis by (simp add: merge_block_def)
next
  case True
  with assms have b: "\<forall>sp \<in> set (block_spans blk). str_strip (dict_get (sp_text sp) '''') = []" by simp
  have "merge_line lin st = st" if "lin \<in> set (dict_get (blk_lines blk) [])" for lin
    using b that by (intro merge_line_blank) (auto simp: block_spans_def)
  then show ?thesis using True by (simp add: merge_block_def fold_id)
qed

lemma page_raw_data_blank:
  assumes "\<forall>blk \<in> set (pg_blocks pg). blk_type blk = 0 \<longrightarrow>
     (\<forall>sp \<in> set (block_spans blk). str_strip (dict_get (sp_text sp) '''') = [])"
  shows "page_raw_data page_num pg = []"
proof -
  have "fold merge_block (pg_blocks pg) st = st" for st
    using assms by (intro fold_id) (simp add: merge_block_blank)
  then show ?thesis by (simp add: page_raw_data_def merged_blocks_on_page_def Let_def)
qed

lemma no_text_all_blocks_raw_data: "no_text doc \<Longrightarrow> all_blocks_raw_data doc = []"
proof -
  assume nt: "no_text doc"
  have "page_raw_data n pg = []" if "pg \<in> set doc" for n pg
    using nt that by (intro page_raw_data_blank) (auto simp: no_text_def)
  then show ?thesis
    by (auto simp: all_blocks_raw_data_def in_set_enumerate_eq)
qed

lemma extract_empty:
  "all_blocks_raw_data doc = [] \<Longrightarrow>
   extract_and_process_pdf (Inr doc) we pdf_path csv_path =
     \<lparr>run_printed =
        [''Successfully opened '' @ quoted pdf_path,
         ''Number of pages: '' @ str_nat (length doc) @ [CHR 0x0A],
         dashes,
         ''Starting Pass 1: Analyzing document structure...'',
         ''No text content found in the PDF.''] @ closing_lines doc,
      run_csv = None, run_raised = None\<rparr>"
  by (simp add: extract_and_process_pdf_def Let_def)

text \<open>
  C9. When no block is extracted, each extractor prints its notice (\<open>No text content
  found in the PDF.\<close>, \<open>Warning: No text blocks were extracted from the PDF.\<close>),
  creates no CSV file and raises nothing; and no block is extracted from a document
  in which no span of a text block has non-blank text.
\<close>

theorem empty_document_no_csv:
  "(all_blocks_raw_data doc = [] \<longrightarrow>
      extract_and_process_pdf (Inr doc) we pdf_path csv_path =
        \<lparr>run_printed =
           [''Successfully opened '' @ quoted pdf_path,
            ''Number of pages: '' @ str_nat (length doc) @ [CHR 0x0A],
            dashes,
            ''Starting Pass 1: Analyzing document structure...'',
            ''No text content found in the PDF.''] @ closing_lines doc,
         run_csv = None, run_raised = None\<rparr>)
   \<and> (all_blocks_data doc = [] \<longrightarrow>
      process_pdf (Inr doc) we pdf_path csv_path =
        \<lparr>run_printed =
           [''Processing '' @ str_nat (length doc) @ '' pages in '' @ quoted (basename pdf_path) @ ''...'',
            ''Warning: No text blocks were extracted from the PDF.''],
         run_csv = None, run_raised = None\<rparr>)
   \<and> (no_text doc \<longrightarrow> all_blocks_raw_data doc = [] \<and> all_blocks_data doc = [])"
  using extract_empty [of doc we pdf_path csv_path] process_pdf_empty [of doc we pdf_path csv_path]
    no_text_all_blocks_raw_data [of doc] no_text_all_blocks_data [of doc]
  by blast

theorem empty_document_no_csv_witness:
  "no_text example_doc_blank
   \<and> run_csv (extract_and_process_pdf (Inr example_doc_blank) None ''in.pdf'' ''out.csv'') = None
   \<and> run_raised (extract_and_process_pdf (Inr example_doc_blank) None ''in.pdf'' ''out.csv'') = None
   \<and> process_pdf (Inr example_doc_blank) None ''in.pdf'' ''out.csv'' =
        \<lparr>run_printed =
           [''Processing 1 pages in '' @ quoted ''in.pdf'' @ ''...'',
            ''Warning: No text blocks were extracted from the PDF.''],
         run_csv = None, run_raised = None\<rparr>"
proof -
  have nt: "no_text example_doc_blank" by code_simp
  note t = empty_document_no_csv [of example_doc_blank None "''in.pdf''" "''out.csv''"]
  from t [THEN conjunct2, THEN conjunct2, THEN mp, OF nt]
  have e: "all_blocks_raw_data example_doc_blank = []" "all_blocks_data example_doc_blank = []"
    by simp_all
  have l: "length example_doc_blank = 1" by (simp add: example_doc_blank_def)
  have b: "basename ''in.pdf'' = ''in.pdf''" by (simp add: basename_def)
  from t [THEN conjunct1, THEN mp, OF e(1)] t [THEN conjunct2, THEN conjunct1, THEN mp, OF e(2)] nt
  show ?thesis by (simp add: l b)
qed

section \<open>The written files: headers and normalised columns\<close>

lemma extract_csv_cases:
  "run_csv (extract_and_process_pdf opened we pdf_path csv_path) = Some (h, cells) \<Longrightarrow>
   \<exists>doc. opened = Inr doc \<and> we = None \<and> all_blocks_raw_data doc \<noteq> []
     \<and> h = csv_header
     \<and> cells = map (csv_row (ranges_of (all_blocks_raw_data doc))) (all_blocks_raw_data doc)"
  by (auto simp: extract_and_process_pdf_def Let_def
      split: sum.splits open_failure.splits option.splits if_splits)

lemma csv_row_length: "length (csv_row rg b) = 33"
  by (simp add: csv_row_def Let_def split: prod.splits)

lemma process_csv_cases:
  assumes "run_csv (process_pdf opened we inp out) = Some (h, cells)"
  shows "\<exists>doc mm rows'. opened = Inr doc \<and> we = None \<and> all_blocks_data doc \<noteq> []
     \<and> min_max_blocks (all_blocks_data doc) min_max_init = Inr mm
     \<and> norm_blocks mm (all_blocks_data doc) = Inr rows'
     \<and> length rows' = length (all_blocks_data doc)
     \<and> (\<forall>i < length (all_blocks_data doc).
           map fst (rows' ! i) = base_keys @ norm_keys_added
         \<and> (\<forall>k \<in> set base_keys. map_of (rows' ! i) k = map_of (all_blocks_data doc ! i) k)
         \<and> (\<forall>key \<in> set features_to_normalize.
               map_of (rows' ! i) (''norm_'' @ key) =
                 Some (VFloat (Finite (py_round
                   (normalize_value (dict_get (feature_num key (all_blocks_data doc ! i)) 0)
                      (Min (set (feature_values key (all_blocks_data doc))))
                      (Max (set (feature_values key (all_blocks_data doc))))) 4)))))
     \<and> h = base_keys @ norm_keys_added \<and> cells = cells_of rows'"
proof (cases opened)
  case (Inl e)
  with assms show ?thesis by (simp add: process_pdf_unopened)
next
  case (Inr doc)
  show ?thesis
  proof (cases "all_blocks_data doc = []")
    case True
    with assms Inr show ?thesis by (simp add: process_pdf_empty)
  next
    case False
    from normed_rows [OF refl False] obtain mm rows' where
      mm: "min_max_blocks (all_blocks_data doc) min_max_init = Inr mm"
      and nb: "norm_blocks mm (all_blocks_data doc) = Inr rows'"
      and len: "length rows' = length (all_blocks_data doc)"
      and pt: "\<forall>i < length (all_blocks_data doc).
           map fst (rows' ! i) = base_keys @ norm_keys_added
         \<and> (\<forall>k \<in> set base_keys. map_of (rows' ! i) k = map_of (all_blocks_data doc ! i) k)
         \<and> (\<forall>key \<in> set features_to_normalize.
               map_of (rows' ! i) (''norm_'' @ key) =
                 Some (VFloat (Finite (py_round
                   (normalize_value (dict_get (feature_num key (all_blocks_data doc ! i)) 0)
                      (Min (set (feature_values key (all_blocks_data doc))))
                      (Max (set (feature_values key (all_blocks_data doc))))) 4))))"
      by (elim exE conjE)
    have keys: "\<forall>i < length rows'. map fst (rows' ! i) = base_keys @ norm_keys_added"
      using pt len by simp
    note w = process_pdf_written [OF mm nb False len keys]
    show ?thesis
    proof (cases we)
      case (Some e)
      from assms have "run_csv (process_pdf (Inr doc) (Some e) inp out) = Some (h, cells)"
        unfolding Inr Some .
      then have False unfolding w(2) run.select_convs by simp
      then show ?thesis ..
    next
      case None
      from assms have "run_csv (process_pdf (Inr doc) None inp out) = Some (h, cells)"
        unfolding Inr None .
      then have hc: "h = base_keys @ norm_keys_added" "cells = cells_of rows'"
        unfolding w(1) run.select_convs by simp_all
      from Inr None False mm nb len pt hc show ?thesis
        by - (intro exI conjI; assumption)
    qed
  qed
qed

text \<open>
  C7. Whenever the Merged-Block extractor creates a CSV file, its header is the list of
  33 columns below, in that order; whenever the Per-Block extractor creates one, its
  header is the list of 25 columns below (the 20 keys of \<open>block_data\<close> in insertion
  order, then the five \<open>norm_\<close> keys), whatever the document. Every row has as many
  cells as the header.
\<close>

theorem csv_headers:
  "(run_csv (extract_and_process_pdf opened we pdf_path csv_path) = Some (h, cells) \<longrightarrow>
      h = [''page_number'', ''is_bold'', ''is_italic'', ''is_underline'', ''is_all_caps'',
           ''is_centered'', ''contains_number'', ''contains_fullstop'', ''word_count'',
           ''norm_font_size'', ''norm_space_above'', ''norm_space_below'',
           ''norm_space_left'', ''norm_space_right'', ''norm_r'', ''norm_g'', ''norm_b'',
           ''norm_x0'', ''norm_y0'', ''norm_x1'', ''norm_y1'',
           ''font'', ''font_size'', ''color_rgb'', ''x0'', ''y0'', ''x1'', ''y1'',
           ''space_above'', ''space_below'', ''space_left'', ''space_right'', ''text'']
      \<and> length h = 33 \<and> (\<forall>c \<in> set cells. length c = 33))
   \<and> (run_csv (process_pdf opened we pdf_path csv_path) = Some (h', cells') \<longrightarrow>
      h' = [''text'', ''font'', ''font_size'', ''is_bold'', ''is_italic'', ''is_underline'',
            ''is_all_caps'', ''is_centered'', ''contains_number'', ''contains_fullstop'',
            ''word_count'', ''x0'', ''y0'', ''x1'', ''y1'', ''space_above'', ''space_below'',
            ''space_left'', ''space_right'', ''page_number'',
            ''norm_font_size'', ''norm_space_above'', ''norm_space_below'',
            ''norm_space_left'', ''norm_space_right'']
      \<and> length h' = 25 \<and> (\<forall>c \<in> set cells'. length c = 25))"
proof -
  have a: "h = csv_header \<and> length h = 33 \<and> (\<forall>c \<in> set cells. length c = 33)"
    if "run_csv (extract_and_process_pdf opened we pdf_path csv_path) = Some (h, cells)"
    using extract_csv_cases [OF that] by (auto simp: csv_row_length csv_header_def)
  have b: "h' = base_keys @ norm_keys_added \<and> length h' = 25 \<and> (\<forall>c \<in> set cells'. length c = 25)"
    if "run_csv (process_pdf opened we pdf_path csv_path) = Some (h', cells')"
    using process_csv_cases [OF that]
    by (auto simp: cells_of_def base_keys_def norm_keys_added_def features_to_normalize_def)
  from a b show ?thesis
    by (simp add: csv_header_def base_keys_def norm_keys_added_def features_to_normalize_def)
qed

theorem csv_headers_witness:
  "map_option fst (run_csv (extract_and_process_pdf (Inr example_doc) None ''in.pdf'' ''out.csv'')) =
     Some [''page_number'', ''is_bold'', ''is_italic'', ''is_underline'', ''is_all_caps'',
           ''is_centered'', ''contains_number'', ''contains_fullstop'', ''word_count'',
           ''norm_font_size'', ''norm_space_above'', ''norm_space_below'',
           ''norm_space_left'', ''norm_space_right'', ''norm_r'', ''norm_g'', ''norm_b'',
           ''norm_x0'', ''norm_y0'', ''norm_x1'', ''norm_y1'',
           ''font'', ''font_size'', ''color_rgb'', ''x0'', ''y0'', ''x1'', ''y1'',
           ''space_above'', ''space_below'', ''space_left'', ''space_right'', ''text'']
   \<and> map_option fst (run_csv (process_pdf (Inr example_doc) None ''in.pdf'' ''out.csv'')) =
     Some [''text'', ''font'', ''font_size'', ''is_bold'', ''is_italic'', ''is_underline'',
            ''is_all_caps'', ''is_centered'', ''contains_number'', ''contains_fullstop'',
            ''word_count'', ''x0'', ''y0'', ''x1'', ''y1'', ''space_above'', ''space_below'',
            ''space_left'', ''space_right'', ''page_number'',
            ''norm_font_size'', ''norm_space_above'', ''norm_space_below'',
            ''norm_space_left'', ''norm_space_right'']"
proof -
  have "run_csv (extract_and_process_pdf (Inr example_doc) None ''in.pdf'' ''out.csv'') \<noteq> None"
    by code_simp
  then obtain h cells where
    a: "run_csv (extract_and_process_pdf (Inr example_doc) None ''in.pdf'' ''out.csv'') = Some (h, cells)"
    by auto
  have "run_csv (process_pdf (Inr example_doc) None ''in.pdf'' ''out.csv'') \<noteq> None"
    by code_simp
  then obtain h' cells' where
    b: "run_csv (process_pdf (Inr example_doc) None ''in.pdf'' ''out.csv'') = Some (h', cells')"
    by auto
  from csv_headers [of "Inr example_doc" None "''in.pdf''" "''out.csv''" h cells h' cells'] a b
  show ?thesis by simp
qed

lemma min_of_Min: "xs \<noteq> [] \<Longrightarrow> min_of xs = Min (set xs)"
  using Min.set_eq_fold [of "hd xs" "tl xs"] by (cases xs) (simp_all add: min_of_def)

lemma max_of_Max: "xs \<noteq> [] \<Longrightarrow> max_of xs = Max (set xs)"
  using Max.set_eq_fold [of "hd xs" "tl xs"] by (cases xs) (simp_all add: max_of_def)

lemma upt_5: "[0..<5] = [0, 1, 2, 3, 4]"
  by (simp add: upt_rec)

lemma csv_row_norm:
  assumes "j < 5"
  shows "csv_row rg b ! (9 + j) =
     VFloat (Finite (py_round
       (normalize_value ((fx_metrics ! j) b)
          ([min_font rg, min_sa rg, min_sb rg, min_sl rg, min_sr rg] ! j)
          ([max_font rg, max_sa rg, max_sb rg, max_sl rg, max_sr rg] ! j)) 4))"
proof -
  have "\<forall>j \<in> set [0..<5]. csv_row rg b ! (9 + j) =
     VFloat (Finite (py_round
       (normalize_value ((fx_metrics ! j) b)
          ([min_font rg, min_sa rg, min_sb rg, min_sl rg, min_sr rg] ! j)
          ([max_font rg, max_sa rg, max_sb rg, max_sl rg, max_sr rg] ! j)) 4))"
    unfolding upt_5
    by (simp add: csv_row_def Let_def fx_metrics_def font_size_of_def rounded_def split: prod.splits)
  with assms show ?thesis by simp
qed

lemma ranges_of_Min_Max:
  assumes "bs \<noteq> []" "j < 5"
  shows "[min_font (ranges_of bs), min_sa (ranges_of bs), min_sb (ranges_of bs),
          min_sl (ranges_of bs), min_sr (ranges_of bs)] ! j = Min (set (map (fx_metrics ! j) bs))"
    and "[max_font (ranges_of bs), max_sa (ranges_of bs), max_sb (ranges_of bs),
          max_sl (ranges_of bs), max_sr (ranges_of bs)] ! j = Max (set (map (fx_metrics ! j) bs))"
proof -
  have ne: "map f bs \<noteq> []" for f :: "raw_block \<Rightarrow> real" using assms(1) by simp
  have "\<forall>j \<in> set [0..<5].
      [min_font (ranges_of bs), min_sa (ranges_of bs), min_sb (ranges_of bs),
          min_sl (ranges_of bs), min_sr (ranges_of bs)] ! j = Min (set (map (fx_metrics ! j) bs))
    \<and> [max_font (ranges_of bs), max_sa (ranges_of bs), max_sb (ranges_of bs),
          max_sl (ranges_of bs), max_sr (ranges_of bs)] ! j = Max (set (map (fx_metrics ! j) bs))"
    unfolding upt_5
    by (simp add: ranges_of_def Let_def fx_metrics_def min_of_Min [OF ne] max_of_Max [OF ne])
  with assms(2) show
    "[min_font (ranges_of bs), min_sa (ranges_of bs), min_sb (ranges_of bs),
          min_sl (ranges_of bs), min_sr (ranges_of bs)] ! j = Min (set (map (fx_metrics ! j) bs))"
    "[max_font (ranges_of bs), max_sa (ranges_of bs), max_sb (ranges_of bs),
          max_sl (ranges_of bs), max_sr (ranges_of bs)] ! j = Max (set (map (fx_metrics ! j) bs))"
    by simp_all
qed

lemma header_norm_names:
  assumes "j < 5"
  shows "csv_header ! (9 + j) = ''norm_'' @ features_to_normalize ! j"
    and "(base_keys @ norm_keys_added) ! (20 + j) = ''norm_'' @ features_to_normalize ! j"
    and "features_to_normalize ! j \<in> set features_to_normalize"
proof -
  have "\<forall>j \<in> set [0..<5]. csv_header ! (9 + j) = ''norm_'' @ features_to_normalize ! j
      \<and> (base_keys @ norm_keys_added) ! (20 + j) = ''norm_'' @ features_to_normalize ! j
      \<and> features_to_normalize ! j \<in> set features_to_normalize"
    unfolding upt_5
    by (simp add: csv_header_def base_keys_def norm_keys_added_def features_to_normalize_def)
  with assms show "csv_header ! (9 + j) = ''norm_'' @ features_to_normalize ! j"
    "(base_keys @ norm_keys_added) ! (20 + j) = ''norm_'' @ features_to_normalize ! j"
    "features_to_normalize ! j \<in> set features_to_normalize"
    by simp_all
qed

lemma extract_norm_cells:
  assumes "run_csv (extract_and_process_pdf opened we pdf_path csv_path) = Some (h, cells)"
  shows "\<exists>doc. opened = Inr doc \<and> length cells = length (all_blocks_raw_data doc)
     \<and> (\<forall>i < length cells. \<forall>j < 5.
           h ! (9 + j) = ''norm_'' @ features_to_normalize ! j
         \<and> cells ! i ! (9 + j) =
             VFloat (Finite (py_round
               (normalize_value ((fx_metrics ! j) (all_blocks_raw_data doc ! i))
                  (Min (set (map (fx_metrics ! j) (all_blocks_raw_data doc))))
                  (Max (set (map (fx_metrics ! j) (all_blocks_raw_data doc))))) 4)))"
proof -
  from extract_csv_cases [OF assms] obtain doc where
    o: "opened = Inr doc" and ne: "all_blocks_raw_data doc \<noteq> []" and h: "h = csv_header"
    and c: "cells = map (csv_row (ranges_of (all_blocks_raw_data doc))) (all_blocks_raw_data doc)"
    by blast
  let ?bs = "all_blocks_raw_data doc"
  have len: "length cells = length ?bs" using c by simp
  have pt: "h ! (9 + j) = ''norm_'' @ features_to_normalize ! j
         \<and> cells ! i ! (9 + j) =
             VFloat (Finite (py_round
               (normalize_value ((fx_metrics ! j) (?bs ! i))
                  (Min (set (map (fx_metrics ! j) ?bs)))
                  (Max (set (map (fx_metrics ! j) ?bs)))) 4))"
    if i: "i < length cells" and j: "j < 5" for i j
  proof -
    have ci: "cells ! i = csv_row (ranges_of ?bs) (?bs ! i)" using c i by simp
    show ?thesis
      unfolding ci h csv_row_norm [OF j] ranges_of_Min_Max [OF ne j]
      using header_norm_names(1) [OF j] by simp
  qed
  from o len pt show ?thesis by blast
qed

lemma process_norm_cells:
  assumes "run_csv (process_pdf opened we pdf_path csv_path) = Some (h, cells)"
  shows "\<exists>doc. opened = Inr doc \<and> length cells = length (all_blocks_data doc)
     \<and> (\<forall>i < length cells. \<forall>j < 5.
           h ! (20 + j) = ''norm_'' @ features_to_normalize ! j
         \<and> cells ! i ! (20 + j) =
             VFloat (Finite (py_round
               (normalize_value (feature_values (features_to_normalize ! j) (all_blocks_data doc) ! i)
                  (Min (set (feature_values (features_to_normalize ! j) (all_blocks_data doc))))
                  (Max (set (feature_values (features_to_normalize ! j) (all_blocks_data doc))))) 4)))"
proof -
  from process_csv_cases [OF assms] obtain doc mm rows' where
    o: "opened = Inr doc"
    and len: "length rows' = length (all_blocks_data doc)"
    and pt: "\<forall>i < length (all_blocks_data doc).
           map fst (rows' ! i) = base_keys @ norm_keys_added
         \<and> (\<forall>k \<in> set base_keys. map_of (rows' ! i) k = map_of (all_blocks_data doc ! i) k)
         \<and> (\<forall>key \<in> set features_to_normalize.
               map_of (rows' ! i) (''norm_'' @ key) =
                 Some (VFloat (Finite (py_round
                   (normalize_value (dict_get (feature_num key (all_blocks_data doc ! i)) 0)
                      (Min (set (feature_values key (all_blocks_data doc))))
                      (Max (set (feature_values key (all_blocks_data doc))))) 4))))"
    and h: "h = base_keys @ norm_keys_added" and c: "cells = cells_of rows'"
    by (elim exE conjE)
  let ?rows = "all_blocks_data doc"
  have lc: "length cells = length ?rows" using c len by (simp add: cells_of_def)
  have res: "h ! (20 + j) = ''norm_'' @ features_to_normalize ! j
         \<and> cells ! i ! (20 + j) =
             VFloat (Finite (py_round
               (normalize_value (feature_values (features_to_normalize ! j) ?rows ! i)
                  (Min (set (feature_values (features_to_normalize ! j) ?rows)))
                  (Max (set (feature_values (features_to_normalize ! j) ?rows)))) 4))"
    if i: "i < length cells" and j: "j < 5" for i j
  proof -
    let ?key = "features_to_normalize ! j"
    have i': "i < length ?rows" using i lc by simp
    have ci: "cells ! i = map (\<lambda>k. dict_get (map_of (rows' ! i) k) (VStr []))
                 (base_keys @ norm_keys_added)"
      using c i' len by (simp add: cells_of_def)
    have l25: "20 + j < length (base_keys @ norm_keys_added)"
      using j by (simp add: base_keys_def norm_keys_added_def features_to_normalize_def)
    have cij: "cells ! i ! (20 + j) = dict_get (map_of (rows' ! i) (''norm_'' @ ?key)) (VStr [])"
      unfolding ci nth_map [OF l25] header_norm_names(2) [OF j] ..
    from pt [rule_format, OF i'] have
      "\<forall>key \<in> set features_to_normalize.
               map_of (rows' ! i) (''norm_'' @ key) =
                 Some (VFloat (Finite (py_round
                   (normalize_value (dict_get (feature_num key (?rows ! i)) 0)
                      (Min (set (feature_values key ?rows)))
                      (Max (set (feature_values key ?rows)))) 4)))" by blast
    from this [rule_format, OF header_norm_names(3) [OF j]]
    have v: "map_of (rows' ! i) (''norm_'' @ ?key) =
                 Some (VFloat (Finite (py_round
                   (normalize_value (dict_get (feature_num ?key (?rows ! i)) 0)
                      (Min (set (feature_values ?key ?rows)))
                      (Max (set (feature_values ?key ?rows)))) 4)))" .
    have fv: "feature_values ?key ?rows ! i = dict_get (feature_num ?key (?rows ! i)) 0"
      using i' by (simp add: feature_values_def)
    show ?thesis
      unfolding cij v fv h header_norm_names(2) [OF j] by (simp add: dict_get_def)
  qed
  from o lc res show ?thesis by blast
qed

text \<open>
  C2. \<open>normalize_value\<close> returns 0 when the bounds are equal and
  \<open>(v - min) / (max - min)\<close> otherwise, so the minimum maps to 0 and, when the bounds
  differ, the maximum maps to 1; the four stated values hold. In every CSV file that
  either extractor writes, the five \<open>norm_\<close> columns hold, rounded to 4 decimals, this
  formula applied to the row's metric with the minimum and maximum of that metric over
  all rows of the document (for the Per-Block extractor the metric is the value stored
  in the row).
\<close>

theorem normalization_formula:
  "normalize_value v min_val max_val =
     (if max_val = min_val then 0 else (v - min_val) / (max_val - min_val))
   \<and> normalize_value min_val min_val max_val = 0
   \<and> (max_val \<noteq> min_val \<longrightarrow> normalize_value max_val min_val max_val = 1)
   \<and> normalize_value 5 5 5 = 0 \<and> normalize_value 5 0 10 = 0.5
   \<and> normalize_value 0 0 10 = 0 \<and> normalize_value 10 0 10 = 1
   \<and> (run_csv (extract_and_process_pdf opened we pdf_path csv_path) = Some (h, cells) \<longrightarrow>
        (\<exists>doc. opened = Inr doc \<and> length cells = length (all_blocks_raw_data doc)
           \<and> (\<forall>i < length cells. \<forall>j < 5.
                 h ! (9 + j) = ''norm_'' @ features_to_normalize ! j
               \<and> cells ! i ! (9 + j) =
                   VFloat (Finite (py_round
                     (normalize_value ((fx_metrics ! j) (all_blocks_raw_data doc ! i))
                        (Min (set (map (fx_metrics ! j) (all_blocks_raw_data doc))))
                        (Max (set (map (fx_metrics ! j) (all_blocks_raw_data doc))))) 4)))))
   \<and> (run_csv (process_pdf opened we pdf_path csv_path) = Some (h', cells') \<longrightarrow>
        (\<exists>doc. opened = Inr doc \<and> length cells' = length (all_blocks_data doc)
           \<and> (\<forall>i < length cells'. \<forall>j < 5.
                 h' ! (20 + j) = ''norm_'' @ features_to_normalize ! j
               \<and> cells' ! i ! (20 + j) =
                   VFloat (Finite (py_round
                     (normalize_value (feature_values (features_to_normalize ! j) (all_blocks_data doc) ! i)
                        (Min (set (feature_values (features_to_normalize ! j) (all_blocks_data doc))))
                        (Max (set (feature_values (features_to_normalize ! j) (all_blocks_data doc))))) 4)))))"
proof -
  have a: "normalize_value v min_val max_val =
     (if max_val = min_val then 0 else (v - min_val) / (max_val - min_val))"
    by (simp add: normalize_value_def)
  have b: "normalize_value min_val min_val max_val = 0" by (simp add: normalize_value_def)
  have c: "max_val \<noteq> min_val \<longrightarrow> normalize_value max_val min_val max_val = 1"
    by (simp add: normalize_value_def)
  have d: "normalize_value 5 5 5 = 0 \<and> normalize_value 5 0 10 = 0.5
   \<and> normalize_value 0 0 10 = 0 \<and> normalize_value 10 0 10 = 1"
    by (simp add: normalize_value_def)
  from a b c d extract_norm_cells [of opened we pdf_path csv_path h cells]
    process_norm_cells [of opened we pdf_path csv_path h' cells']
  show ?thesis by (intro conjI impI) blast+
qed

theorem normalization_formula_witness:
  "normalize_value 20 10 20 = 1
   \<and> (\<exists>h cells. run_csv (process_pdf (Inr example_doc) None ''in.pdf'' ''out.csv'') = Some (h, cells)
        \<and> h ! 20 = ''norm_font_size'' \<and> cells ! 0 ! 20 = VFloat (Finite 1))
   \<and> (\<exists>h cells. run_csv (extract_and_process_pdf (Inr example_doc) None ''in.pdf'' ''out.csv'') = Some (h, cells)
        \<and> h ! 9 = ''norm_font_size'' \<and> cells ! 0 ! 9 = VFloat (Finite 1))"
proof -
  have "run_csv (extract_and_process_pdf (Inr example_doc) None ''in.pdf'' ''out.csv'') \<noteq> None"
    by code_simp
  then obtain h cells where
    a: "run_csv (extract_and_process_pdf (Inr example_doc) None ''in.pdf'' ''out.csv'') = Some (h, cells)"
    by auto
  have "run_csv (process_pdf (Inr example_doc) None ''in.pdf'' ''out.csv'') \<noteq> None"
    by code_simp
  then obtain h' cells' where
    b: "run_csv (process_pdf (Inr example_doc) None ''in.pdf'' ''out.csv'') = Some (h', cells')"
    by auto
  note t = normalization_formula [of 20 10 20 "Inr example_doc" None "''in.pdf''" "''out.csv''"
      h cells h' cells']
  have ne: "(20::real) \<noteq> 10" by simp
  from t have n1: "normalize_value 20 10 20 = 1" using ne by blast
  have r1: "py_round 1 4 = 1" by (simp add: py_round_def py_round_int_def)
  have fv: "feature_values (features_to_normalize ! 0) (all_blocks_data example_doc) = [20, 16, 10, 10]"
    by code_simp
  have mv: "map (fx_metrics ! 0) (all_blocks_raw_data example_doc) = [20, 16, 10]"
    by code_simp
  have f0: "features_to_normalize ! 0 = ''font_size''" by (simp add: features_to_normalize_def)
  from t a obtain doc where d: "Inr example_doc = Inr doc"
    and la: "length cells = length (all_blocks_raw_data doc)"
    and pa: "\<forall>i < length cells. \<forall>j < 5.
                 h ! (9 + j) = ''norm_'' @ features_to_normalize ! j
               \<and> cells ! i ! (9 + j) =
                   VFloat (Finite (py_round
                     (normalize_value ((fx_metrics ! j) (all_blocks_raw_data doc ! i))
                        (Min (set (map (fx_metrics ! j) (all_blocks_raw_data doc))))
                        (Max (set (map (fx_metrics ! j) (all_blocks_raw_data doc))))) 4))"
    by blast
  from d have doc: "doc = example_doc" by simp
  have "length (map (fx_metrics ! 0) (all_blocks_raw_data example_doc)) = 3" unfolding mv by simp
  then have la': "0 < length cells" using la doc by simp
  have m0: "(fx_metrics ! 0) (all_blocks_raw_data example_doc ! 0) = 20"
    using arg_cong [OF mv, of "\<lambda>xs. xs ! 0"] la' la doc by simp
  from pa [rule_format, OF la', of 0] have
    ra: "h ! 9 = ''norm_font_size'' \<and> cells ! 0 ! 9 = VFloat (Finite 1)"
    unfolding doc mv m0 using n1 r1 f0 by simp
  from t b obtain doc' where d': "Inr example_doc = Inr doc'"
    and lb: "length cells' = length (all_blocks_data doc')"
    and pb: "\<forall>i < length cells'. \<forall>j < 5.
                 h' ! (20 + j) = ''norm_'' @ features_to_normalize ! j
               \<and> cells' ! i ! (20 + j) =
                   VFloat (Finite (py_round
                     (normalize_value (feature_values (features_to_normalize ! j) (all_blocks_data doc') ! i)
                        (Min (set (feature_values (features_to_normalize ! j) (all_blocks_data doc'))))
                        (Max (set (feature_values (features_to_normalize ! j) (all_blocks_data doc'))))) 4))"
    by blast
  from d' have doc': "doc' = example_doc" by simp
  have "length (feature_values (features_to_normalize ! 0) (all_blocks_data example_doc)) = 4"
    unfolding fv by simp
  then have lb': "0 < length cells'" using lb doc' by (simp add: feature_values_def)
  from pb [rule_format, OF lb', of 0] have
    rb: "h' ! 20 = ''norm_font_size'' \<and> cells' ! 0 ! 20 = VFloat (Finite 1)"
    unfolding doc' fv using n1 r1 f0 by simp
  from n1 a b ra rb show ?thesis by blast
qed

end
